theory Spec2Isabelle
  imports Complex_Main
begin

section \<open>Numbers, exceptions and slices\<close>

text \<open>
  LithosGuard Pro computes with Python and numpy floats. A finite float is modelled as a
  real number, and rounding is outside the model. The non-finite values of float64 are
  kept apart, since numpy returns them instead of raising: \<open>PInf\<close> and \<open>NInf\<close> for the
  two infinities, \<open>NaN\<close> for not-a-number. They arise from a division by zero and from
  overflow, and the velocity computation of the physics engine is modelled with both.
\<close>

text \<open>
  The exceptions of the model are instances of Python's \<open>Exception\<close>, the class that the
  handlers of the repository catch.
\<close>

datatype py_error =
  ValueError | IndexError | AttributeError | ImportError | RuntimeError | UnicodeEncodeError

datatype npfloat = Finite real | PInf | NInf | NaN

text \<open>Python's builtin \<^verbatim>\<open>max(a, b)\<close>: the first argument unless the second is greater.\<close>

definition py_max :: "real \<Rightarrow> real \<Rightarrow> real" where
  "py_max a b = (if b > a then b else a)"

text \<open>
  The least magnitude that float64 rounds to an infinity: halfway between the largest
  finite float, \<open>2^1024 - 2^971\<close>, and \<open>2^1024\<close>.
\<close>

definition float_overflow :: real where
  "float_overflow = 2 ^ 1024 - 2 ^ 970"

text \<open>The float64 result of an operation whose exact value is \<open>r\<close>.\<close>

definition np_overflow :: "real \<Rightarrow> npfloat" where
  "np_overflow r =
     (if float_overflow \<le> r then PInf
      else if r \<le> - float_overflow then NInf
      else Finite r)"

text \<open>numpy's \<^verbatim>\<open>a - b\<close> on finite float64 scalars.\<close>

definition np_sub :: "real \<Rightarrow> real \<Rightarrow> npfloat" where
  "np_sub a b = np_overflow (a - b)"

text \<open>
  numpy's \<^verbatim>\<open>a / b\<close> on float64 scalars: a zero divisor gives an infinity or nan with a
  warning and no exception. The sign of a zero is not tracked: a zero divisor stands for
  \<open>+0.0\<close>, which is what the difference of two equal floats is.
\<close>

fun np_divide :: "npfloat \<Rightarrow> npfloat \<Rightarrow> npfloat" where
  "np_divide (Finite a) (Finite b) =
     (if b = 0 then (if a = 0 then NaN else if a > 0 then PInf else NInf)
      else np_overflow (a / b))"
| "np_divide (Finite a) PInf = Finite 0"
| "np_divide (Finite a) NInf = Finite 0"
| "np_divide PInf (Finite b) = (if 0 \<le> b then PInf else NInf)"
| "np_divide NInf (Finite b) = (if 0 \<le> b then NInf else PInf)"
| "np_divide PInf PInf = NaN"
| "np_divide PInf NInf = NaN"
| "np_divide NInf PInf = NaN"
| "np_divide NInf NInf = NaN"
| "np_divide NaN _ = NaN"
| "np_divide _ NaN = NaN"

fun np_abs :: "npfloat \<Rightarrow> npfloat" where
  "np_abs (Finite v) = Finite \<bar>v\<bar>"
| "np_abs PInf = PInf"
| "np_abs NInf = PInf"
| "np_abs NaN = NaN"

text \<open>\<^verbatim>\<open>x < c\<close> for a finite constant \<open>c\<close>: every comparison with nan is false.\<close>

fun np_less :: "npfloat \<Rightarrow> real \<Rightarrow> bool" where
  "np_less (Finite v) c = (v < c)"
| "np_less PInf c = False"
| "np_less NInf c = True"
| "np_less NaN c = False"

text \<open>\<^verbatim>\<open>1.0 / x\<close> for a numpy float64 \<open>x\<close>.\<close>

definition np_recip :: "npfloat \<Rightarrow> npfloat" where
  "np_recip x = np_divide (Finite 1) x"

text \<open>\<^verbatim>\<open>x * s\<close> for a numpy float64 \<open>x\<close> and a finite Python float \<open>s\<close>.\<close>

fun np_scale :: "npfloat \<Rightarrow> real \<Rightarrow> npfloat" where
  "np_scale (Finite v) s = np_overflow (v * s)"
| "np_scale PInf s = (if s = 0 then NaN else if s > 0 then PInf else NInf)"
| "np_scale NInf s = (if s = 0 then NaN else if s > 0 then NInf else PInf)"
| "np_scale NaN s = NaN"

text \<open>The slice \<^verbatim>\<open>xs[-k:]\<close> for \<open>k > 0\<close>: the last \<open>k\<close> elements, or all of a shorter list.\<close>

definition tail_slice :: "nat \<Rightarrow> 'a list \<Rightarrow> 'a list" where
  "tail_slice k xs = drop (length xs - k) xs"

section \<open>physics\_engine.py: GeotechPhysics\<close>

text \<open>\<^verbatim>\<open>np.radians\<close>: degrees to radians.\<close>

definition radians :: "real \<Rightarrow> real" where
  "radians deg = deg * pi / 180"

definition calculate_fos :: "real \<Rightarrow> real \<Rightarrow> real \<Rightarrow> real \<Rightarrow> real \<Rightarrow> real" where
  "calculate_fos cohesion friction_angle normal_stress pore_pressure shear_stress =
     (let effective_normal_stress = py_max (normal_stress - pore_pressure) (1/10);
          tan_phi = tan (radians friction_angle);
          shear_strength = cohesion + (effective_normal_stress * tan_phi);
          fos = shear_strength / py_max shear_stress (1/10)
      in fos)"

text \<open>
  The last entry of \<^verbatim>\<open>np.gradient(f)\<close> and of \<^verbatim>\<open>np.gradient(f, x)\<close> for one-dimensional
  arrays with the default \<^verbatim>\<open>edge_order=1\<close>. numpy is not part of the repository; this follows
  its documented behaviour. With coordinates \<open>x\<close> numpy first raises ValueError unless
  \<open>len(x) = len(f)\<close>, then forms \<open>diffx = np.diff(x)\<close> and reads \<open>diffx[0]\<close> (IndexError
  for fewer than two points); without coordinates the spacing is 1.0 and fewer than two
  points raise ValueError. The last entry is the one-sided difference
  \<open>(f[-1] - f[-2]) / (x[-1] - x[-2])\<close>, computed elementwise in float64: either
  difference may overflow to an infinity, and a zero or infinite spacing gives an
  infinity, a zero or nan, never an exception. \<^verbatim>\<open>inverse_velocity\<close> reads only this entry.
\<close>

definition np_gradient_last :: "real list \<Rightarrow> real list option \<Rightarrow> py_error + npfloat" where
  "np_gradient_last f coords =
     (let n = length f in
      case coords of
        None \<Rightarrow>
          if n < 2 then Inl ValueError
          else Inr (np_divide (np_sub (f ! (n - 1)) (f ! (n - 2))) (Finite 1))
      | Some x \<Rightarrow>
          if length x \<noteq> n then Inl ValueError
          else if n < 2 then Inl IndexError
          else Inr (np_divide (np_sub (f ! (n - 1)) (f ! (n - 2)))
                      (np_sub (x ! (n - 1)) (x ! (n - 2)))))"

definition inverse_velocity :: "real list \<Rightarrow> real list option \<Rightarrow> py_error + npfloat" where
  "inverse_velocity displacement_series time_series =
     (let displacement_array = displacement_series in
      if length displacement_array < 5 then Inr (Finite 999)
      else
        let recent_displacement = tail_slice 10 displacement_array;
            gradient =
              (case time_series of
                 Some ts \<Rightarrow>
                   (let time_array = tail_slice 10 ts
                    in np_gradient_last recent_displacement (Some time_array))
               | None \<Rightarrow> np_gradient_last recent_displacement None)
        in case gradient of
             Inl e \<Rightarrow> Inl e
           | Inr velocity \<Rightarrow>
               if np_less (np_abs velocity) (1/10000) then Inr (Finite 99)
               else Inr (np_recip (np_abs velocity)))"

definition calculate_ttf :: "real list \<Rightarrow> real list option \<Rightarrow> real \<Rightarrow> py_error + npfloat" where
  "calculate_ttf displacement_series time_series scaling_factor =
     (case inverse_velocity displacement_series time_series of
        Inl e \<Rightarrow> Inl e
      | Inr inv_v \<Rightarrow> (let ttf_hours = np_scale inv_v scaling_factor in Inr ttf_hours))"

definition calculate_shear_stress :: "real \<Rightarrow> real \<Rightarrow> real \<Rightarrow> real" where
  "calculate_shear_stress displacement base_stress stress_increase_rate =
     base_stress + (displacement * stress_increase_rate)"

section \<open>Reference definition of the inverse velocity\<close>

text \<open>
  The reference that the specification gives for \<open>inverse_velocity\<close>, in float64
  values: fewer than 5 samples give 999; otherwise the last 10 samples are kept, a
  numerical gradient with respect to the time values (or the sample index) is computed,
  its last value is the velocity \<open>v\<close>, and the result is 99 if \<open>|v| < 1e-4\<close> and \<open>1/|v|\<close>
  otherwise. The numerical gradient is the usual one: one-sided differences at the two
  ends, second-order central differences inside.
\<close>

definition spec_last10 :: "'a list \<Rightarrow> 'a list" where
  "spec_last10 xs = rev (take 10 (rev xs))"

definition spec_gradient :: "real list \<Rightarrow> real list \<Rightarrow> npfloat list" where
  "spec_gradient f x =
     (let n = length f in
      map (\<lambda>i.
        if i = 0 then np_divide (np_sub (f ! 1) (f ! 0)) (np_sub (x ! 1) (x ! 0))
        else if i = n - 1
        then np_divide (np_sub (f ! (n - 1)) (f ! (n - 2))) (np_sub (x ! (n - 1)) (x ! (n - 2)))
        else
          (let hs = x ! i - x ! (i - 1); hd = x ! (i + 1) - x ! i
           in np_divide
                (np_overflow (hs\<^sup>2 * f ! (i + 1) + (hd\<^sup>2 - hs\<^sup>2) * f ! i - hd\<^sup>2 * f ! (i - 1)))
                (np_overflow (hs * hd * (hd + hs)))))
        [0..<n])"

definition spec_inverse_velocity :: "real list \<Rightarrow> real list option \<Rightarrow> npfloat" where
  "spec_inverse_velocity d t =
     (if length d < 5 then Finite 999
      else
        let w = spec_last10 d;
            x = (case t of None \<Rightarrow> map real [0..<length w] | Some ts \<Rightarrow> spec_last10 ts);
            v = last (spec_gradient w x)
        in if np_less (np_abs v) (1/10000) then Finite 99 else np_divide (Finite 1) (np_abs v))"

text \<open>The difference of the last two entries of a series.\<close>

definition last_step :: "real list \<Rightarrow> real" where
  "last_step xs = xs ! (length xs - 1) - xs ! (length xs - 2)"

section \<open>data\_simulator.py\<close>

text \<open>
  \<^verbatim>\<open>np.linspace(start, stop, num)\<close> with the default \<^verbatim>\<open>endpoint=True\<close>: a negative
  \<open>num\<close> raises ValueError; otherwise \<open>arange(0, num) * step + start\<close> with
  \<open>step = (stop - start) / (num - 1)\<close>, and for \<open>num > 1\<close> the last entry is overwritten
  with \<open>stop\<close>. For \<open>num = 1\<close> the only entry is \<open>start\<close>.
\<close>

definition np_linspace :: "real \<Rightarrow> real \<Rightarrow> int \<Rightarrow> py_error + real list" where
  "np_linspace start stop num =
     (if num < 0 then Inl ValueError
      else
        let n = nat num; divisor = n - 1; delta = stop - start;
            y = (if divisor > 0
                 then (let step = delta / real divisor in map (\<lambda>i. real i * step + start) [0..<n])
                 else map (\<lambda>i. real i * delta + start) [0..<n])
        in Inr (if n > 1 then y[n - 1 := stop] else y))"

text \<open>
  The pseudo-random draws are inputs of the model. Each field is the array that one
  \<^verbatim>\<open>np.random\<close> call returns, given by index: \<open>rqd_noise\<close> for
  \<^verbatim>\<open>np.random.randint(40, 50, rows)\<close> (reduced into the range 40..49), and
  \<open>normal1\<close>, \<open>normal2\<close>, \<open>normal3\<close> for the first, second and third
  \<^verbatim>\<open>np.random.normal\<close> call of the scenario function.
\<close>

record noise =
  rqd_noise :: "nat \<Rightarrow> nat"
  normal1 :: "nat \<Rightarrow> real"
  normal2 :: "nat \<Rightarrow> real"
  normal3 :: "nat \<Rightarrow> real"

definition np_random_randint :: "(nat \<Rightarrow> nat) \<Rightarrow> int \<Rightarrow> int \<Rightarrow> nat \<Rightarrow> int list" where
  "np_random_randint draws low high sz =
     map (\<lambda>i. low + int (draws i mod nat (high - low))) [0..<sz]"

definition np_random_normal :: "(nat \<Rightarrow> real) \<Rightarrow> nat \<Rightarrow> real list" where
  "np_random_normal draws sz = map draws [0..<sz]"

text \<open>The dictionary that a scenario function returns.\<close>

record scenario_data =
  pressure :: "real list"
  acoustic :: "real list"
  displacement :: "real list"
  intensity :: "real list"

text \<open>
  \<^verbatim>\<open>target[mask] = values\<close>: the entries of \<open>target\<close> where the mask is true are replaced,
  in order, by the entries of \<open>values\<close>.
\<close>

fun masked_assign :: "real list \<Rightarrow> bool list \<Rightarrow> real list \<Rightarrow> real list" where
  "masked_assign (t # ts) (m # ms) vs =
     (if m then (case vs of [] \<Rightarrow> t # masked_assign ts ms [] | v # vs' \<Rightarrow> v # masked_assign ts ms vs')
      else t # masked_assign ts ms vs)"
| "masked_assign ts _ _ = ts"

definition generate_monsoon_scenario :: "noise \<Rightarrow> real list \<Rightarrow> nat \<Rightarrow> scenario_data" where
  "generate_monsoon_scenario nz time_hrs rows =
     (let rain_event = map (\<lambda>t. 1 / (1 + exp (- (1/2) * (t - 18)))) time_hrs;
          pressure = map (\<lambda>r. 20 + (r * 65)) rain_event;
          truck_noise = map (\<lambda>t. (2/10) * sin (2 * pi * (1/2) * t)) time_hrs;
          mask = map (\<lambda>p. p > 60) pressure;
          fracture_signal =
            masked_assign (replicate rows 0) mask
              (map (\<lambda>z. (5/100) * z) (np_random_normal (normal1 nz) (length (filter id mask))));
          acoustic = map2 (+) (map2 (+) truck_noise fracture_signal) (np_random_normal (normal2 nz) rows);
          displacement = map (\<lambda>p. (1/2) * exp ((3/10) * (p / 10))) pressure
      in \<lparr>pressure = pressure, acoustic = acoustic, displacement = displacement,
          intensity = rain_event\<rparr>)"

definition generate_seismic_scenario :: "noise \<Rightarrow> real list \<Rightarrow> nat \<Rightarrow> scenario_data" where
  "generate_seismic_scenario nz time_hrs rows =
     (let pressure = map (\<lambda>z. 30 + z) (np_random_normal (normal1 nz) rows);
          seismic_pulse = map (\<lambda>t. exp (- ((t - 12)\<^sup>2) / 2)) time_hrs;
          acoustic = map2 (+) (map (\<lambda>s. s * 2) seismic_pulse) (np_random_normal (normal2 nz) rows);
          displacement = map (\<lambda>s. 1 + (s * 8)) seismic_pulse
      in \<lparr>pressure = pressure, acoustic = acoustic, displacement = displacement,
          intensity = seismic_pulse\<rparr>)"

definition generate_stable_scenario :: "noise \<Rightarrow> real list \<Rightarrow> nat \<Rightarrow> py_error + scenario_data" where
  "generate_stable_scenario nz time_hrs rows =
     (let pressure = map (\<lambda>z. 25 + z) (np_random_normal (normal1 nz) rows);
          acoustic = map2 (+) (map (\<lambda>t. (2/100) * sin (2 * pi * (1/2) * t)) time_hrs)
                       (np_random_normal (normal2 nz) rows)
      in case np_linspace (1/2) (3/2) (int rows) of
           Inl e \<Rightarrow> Inl e
         | Inr ramp \<Rightarrow>
             (let displacement = map2 (+) ramp (np_random_normal (normal3 nz) rows)
              in Inr \<lparr>pressure = pressure, acoustic = acoustic, displacement = displacement,
                      intensity = replicate rows 0\<rparr>))"

text \<open>One row of the GSI Bhukosh table.\<close>

record gsi_row =
  Time_Hrs :: real
  Lithology :: string
  RQD :: int
  Pore_Water_Pressure_kPa :: real
  Raw_Acoustic_Emission_g :: real
  Displacement_mm :: real
  Scenario_Intensity :: real

text \<open>
  \<^verbatim>\<open>pd.DataFrame({...})\<close> from seven columns: ValueError unless all columns have the same
  length; row \<open>i\<close> holds the \<open>i\<close>-th entry of every column.
\<close>

definition pd_DataFrame ::
  "real list \<Rightarrow> string list \<Rightarrow> int list \<Rightarrow> real list \<Rightarrow> real list \<Rightarrow> real list \<Rightarrow> real list
    \<Rightarrow> py_error + gsi_row list" where
  "pd_DataFrame time lith rqd pres acou disp inten =
     (let n = length time in
      if length lith = n \<and> length rqd = n \<and> length pres = n \<and> length acou = n
         \<and> length disp = n \<and> length inten = n
      then Inr (map (\<lambda>i. \<lparr>Time_Hrs = time ! i, Lithology = lith ! i, RQD = rqd ! i,
                           Pore_Water_Pressure_kPa = pres ! i, Raw_Acoustic_Emission_g = acou ! i,
                           Displacement_mm = disp ! i, Scenario_Intensity = inten ! i\<rparr>) [0..<n])
      else Inl ValueError)"

definition generate_gsi_dataset :: "noise \<Rightarrow> int \<Rightarrow> string \<Rightarrow> py_error + gsi_row list" where
  "generate_gsi_dataset nz rows scenario =
     (case np_linspace 0 24 rows of
        Inl e \<Rightarrow> Inl e
      | Inr time_hrs \<Rightarrow>
          (let lithology = replicate (nat rows) ''Quartzite (Fractured)'';
               rqd = np_random_randint (rqd_noise nz) 40 50 (nat rows);
               generated =
                 (if scenario = ''monsoon'' then Inr (generate_monsoon_scenario nz time_hrs (nat rows))
                  else if scenario = ''seismic'' then Inr (generate_seismic_scenario nz time_hrs (nat rows))
                  else generate_stable_scenario nz time_hrs (nat rows))
           in case generated of
                Inl e \<Rightarrow> Inl e
              | Inr data \<Rightarrow>
                  pd_DataFrame time_hrs lithology rqd (pressure data) (acoustic data)
                    (displacement data) (intensity data)))"

text \<open>The values of \<open>np.linspace\<close> in closed form, used to state the lemmas below.\<close>

definition linspace_values :: "real \<Rightarrow> real \<Rightarrow> nat \<Rightarrow> real list" where
  "linspace_values a b n = map (\<lambda>i. a + real i * (b - a) / real (n - 1)) [0..<n]"

text \<open>A noise source whose draws are all zero, for concrete evaluations.\<close>

definition quiet_noise :: noise where
  "quiet_noise = \<lparr>rqd_noise = (\<lambda>_. 0), normal1 = (\<lambda>_. 0), normal2 = (\<lambda>_. 0), normal3 = (\<lambda>_. 0)\<rparr>"


text \<open>The logistic curve that the specification gives for the monsoon pore pressure.\<close>

definition spec_monsoon_pressure :: "real \<Rightarrow> real" where
  "spec_monsoon_pressure t = 20 + 65 * (1 / (1 + exp (- (1/2) * (t - 18))))"

section \<open>ml\_engine.py: LithosML\<close>

text \<open>
  The pickled classifier is an external artifact. It is modelled by its two methods on the
  one-row frame built from \<open>(pressure, displacement)\<close>: \<open>predict\<close> returns the array of
  labels and \<open>predict_proba\<close> the array of probability rows, and either may raise.
\<close>

record classifier =
  predict :: "real \<Rightarrow> real \<Rightarrow> py_error + int list"
  predict_proba :: "real \<Rightarrow> real \<Rightarrow> py_error + real list list"

text \<open>
  What the process finds around it: importable modules, the file system, the unpickler,
  and the standard output. \<open>stdout_write\<close> gives the exception that writing a text to
  \<^verbatim>\<open>sys.stdout\<close> raises, if any (a stream that cannot encode the text raises
  UnicodeEncodeError); \<open>error_text\<close> is what \<^verbatim>\<open>str(e)\<close> gives for an exception.
\<close>

record ml_env =
  joblib_importable :: bool
  pandas_importable :: bool
  path_exists :: "string \<Rightarrow> bool"
  joblib_load :: "string \<Rightarrow> py_error + classifier"
  stdout_write :: "string \<Rightarrow> py_error option"
  error_text :: "py_error \<Rightarrow> string"

text \<open>\<^verbatim>\<open>print(text)\<close>: the exception of the stream, if any, is raised to the caller.\<close>

definition py_print :: "ml_env \<Rightarrow> string \<Rightarrow> py_error + unit" where
  "py_print env msg = (case stdout_write env msg of None \<Rightarrow> Inr () | Some e \<Rightarrow> Inl e)"

text \<open>
  The two emoji of the messages, as the UTF-8 bytes of the source file: the check mark
  U+2705 and the warning sign U+26A0 U+FE0F.
\<close>

definition check_mark :: string where
  "check_mark = [CHR 0xE2, CHR 0x9C, CHR 0x85]"

definition warning_sign :: string where
  "warning_sign = [CHR 0xE2, CHR 0x9A, CHR 0xA0, CHR 0xEF, CHR 0xB8, CHR 0x8F]"

record LithosML =
  model_path :: string
  model :: "classifier option"
  model_loaded :: bool

text \<open>
  The body of the \<^verbatim>\<open>try\<close> block of \<^verbatim>\<open>_load_model\<close>: the engine as the body leaves it, and
  the exception that ended the body, if any. The two attributes are assigned before the
  success message is printed.
\<close>

definition load_model_body :: "ml_env \<Rightarrow> LithosML \<Rightarrow> LithosML \<times> (py_error + unit)" where
  "load_model_body env self =
     (if \<not> joblib_importable env then (self, Inl ImportError)
      else if path_exists env (model_path self) then
        (case joblib_load env (model_path self) of
           Inl e \<Rightarrow> (self, Inl e)
         | Inr m \<Rightarrow>
             (self\<lparr>model := Some m, model_loaded := True\<rparr>,
              py_print env (check_mark @ '' Model loaded: '' @ model_path self)))
      else
        (self,
         case py_print env (warning_sign @ '' Model not found: '' @ model_path self) of
           Inl e \<Rightarrow> Inl e
         | Inr _ \<Rightarrow> py_print env (''   Run '' @ [CHR 0x27] @ ''python train_v1.py''
                                  @ [CHR 0x27] @ '' to generate the model.'')))"

text \<open>
  \<^verbatim>\<open>_load_model\<close>: an exception of the body is caught and reported with \<^verbatim>\<open>print\<close>; an
  exception of that \<^verbatim>\<open>print\<close> is raised to the caller.
\<close>

definition load_model :: "ml_env \<Rightarrow> LithosML \<Rightarrow> py_error + LithosML" where
  "load_model env self =
     (case load_model_body env self of
        (self', Inr _) \<Rightarrow> Inr self'
      | (self', Inl e) \<Rightarrow>
          (case py_print env (warning_sign @ '' Error loading model: '' @ error_text env e) of
             Inl e' \<Rightarrow> Inl e'
           | Inr _ \<Rightarrow> Inr self'))"

definition LithosML_init :: "ml_env \<Rightarrow> string \<Rightarrow> py_error + LithosML" where
  "LithosML_init env path =
     load_model env \<lparr>model_path = path, model = None, model_loaded = False\<rparr>"

text \<open>The body of the \<^verbatim>\<open>try\<close> block of \<open>predict_risk\<close>.\<close>

definition predict_risk_body ::
  "ml_env \<Rightarrow> LithosML \<Rightarrow> real \<Rightarrow> real \<Rightarrow> py_error + (string \<times> real)" where
  "predict_risk_body env self pres disp =
     (if \<not> pandas_importable env then Inl ImportError
      else case model self of
        None \<Rightarrow> Inl AttributeError
      | Some m \<Rightarrow>
          (case predict m pres disp of
             Inl e \<Rightarrow> Inl e
           | Inr [] \<Rightarrow> Inl IndexError
           | Inr (prediction # _) \<Rightarrow>
               (case predict_proba m pres disp of
                  Inl e \<Rightarrow> Inl e
                | Inr [] \<Rightarrow> Inl IndexError
                | Inr (probability # _) \<Rightarrow>
                    (let risk_label = (if prediction = 1 then ''CRITICAL FAILURE'' else ''Stable'');
                         risk_prob = (if length probability > 1 then probability ! 1 else 1/2)
                     in Inr (risk_label, risk_prob)))))"

text \<open>
  \<open>predict_risk\<close>: an exception of the body is caught, reported with \<^verbatim>\<open>print\<close> and
  answered with ("Error", 0.0); an exception of that \<^verbatim>\<open>print\<close> is raised to the caller.
\<close>

definition predict_risk ::
  "ml_env \<Rightarrow> LithosML \<Rightarrow> real \<Rightarrow> real \<Rightarrow> py_error + (string \<times> real)" where
  "predict_risk env self pres disp =
     (if \<not> model_loaded self then Inr (''Model Not Loaded'', 0)
      else case predict_risk_body env self pres disp of
        Inl e \<Rightarrow>
          (case py_print env (warning_sign @ '' Prediction error: '' @ error_text env e) of
             Inl e' \<Rightarrow> Inl e'
           | Inr _ \<Rightarrow> Inr (''Error'', 0))
      | Inr result \<Rightarrow> Inr result)"

section \<open>app.py: the monitoring loop\<close>

text \<open>
  The part of \<^verbatim>\<open>st.session_state\<close> that the monitoring code reads and writes. The
  telemetry buffer is the dictionary with the four keys time, pressure, displacement, fos.
\<close>

record telemetry =
  buf_time :: "real list"
  buf_pressure :: "real list"
  buf_displacement :: "real list"
  buf_fos :: "real list"

record session_state =
  inject_failure :: bool
  alarm_triggered :: bool
  command_log :: "string list"
  alarm_already_logged :: bool
  telemetry_buffer :: telemetry

definition initial_session :: session_state where
  "initial_session =
     \<lparr>inject_failure = False, alarm_triggered = False, command_log = [],
      alarm_already_logged = False,
      telemetry_buffer = \<lparr>buf_time = [], buf_pressure = [], buf_displacement = [], buf_fos = []\<rparr>\<rparr>"

text \<open>
  The two test controls of the sidebar. INJECT FAILURE sets the injection flag and clears
  \<open>alarm_already_logged\<close>, leaving the command log as it is. Reset is offered while the
  injection flag is set and clears the flags, the command log and the telemetry buffer.
\<close>

definition press_inject_failure :: "session_state \<Rightarrow> session_state" where
  "press_inject_failure s = s\<lparr>inject_failure := True, alarm_already_logged := False\<rparr>"

definition press_reset :: "session_state \<Rightarrow> session_state" where
  "press_reset s =
     (if inject_failure s
      then s\<lparr>inject_failure := False, alarm_triggered := False, command_log := [],
             alarm_already_logged := False,
             telemetry_buffer :=
               \<lparr>buf_time = [], buf_pressure = [], buf_displacement = [], buf_fos = []\<rparr>\<rparr>
      else s)"

text \<open>What one evaluation puts on the screen.\<close>

record tick_view =
  tick_index :: nat
  view_time :: real
  view_pressure :: real
  view_displacement :: real
  view_fos :: real
  view_ttf :: npfloat
  view_ml_risk :: string
  view_ml_prob :: real
  is_critical :: bool
  risk_level :: string

text \<open>The batch of outbound command records of the live stream, stamped with the clock.\<close>

definition stream_alarm_batch :: "string \<Rightarrow> string list" where
  \<open>stream_alarm_batch current_time =
     [''['' @ current_time @ ''] MQTT >> mine/pit1/control/alarm {"cmd": "SIREN_ON"}'',
      ''['' @ current_time @ ''] API >> POST /v1/trigger/alarm {"sector": 4, "severity": "CRITICAL"}'',
      ''['' @ current_time @ ''] SMS >> Broadcast to 42 workers: EVACUATE SECTOR 4'',
      ''['' @ current_time @ ''] RELAY >> Truck #091 engine cutoff activated'',
      ''['' @ current_time @ ''] RELAY >> Emergency lighting Zone 4: ON'']\<close>

definition forensic_alarm_batch :: "string \<Rightarrow> string list" where
  \<open>forensic_alarm_batch ct =
     [''['' @ ct @ ''] MQTT >> mine/pit1/control/alarm {"cmd": "SIREN_ON"}'',
      ''['' @ ct @ ''] API >> POST /v1/trigger/alarm'',
      ''['' @ ct @ ''] SMS >> 42 workers notified'',
      ''['' @ ct @ ''] RELAY >> Truck #091 cutoff'']\<close>

text \<open>\<^verbatim>\<open>get_dataset\<close> and the failure injection applied to its result.\<close>

definition get_dataset :: "noise \<Rightarrow> string \<Rightarrow> py_error + gsi_row list" where
  "get_dataset nz scenario_type = generate_gsi_dataset nz 1000 scenario_type"

definition inject_spike :: "gsi_row list \<Rightarrow> gsi_row list" where
  "inject_spike full_data =
     (let spike_start = nat \<lfloor>real (length full_data) * (8/10)\<rfloor>
      in map (\<lambda>(i, r). if spike_start \<le> i
                          then r\<lparr>Pore_Water_Pressure_kPa := Pore_Water_Pressure_kPa r * (15/10)\<rparr>
                          else r)
           (enumerate 0 full_data))"

definition tab1_data :: "noise \<Rightarrow> string \<Rightarrow> session_state \<Rightarrow> py_error + gsi_row list" where
  "tab1_data nz scenario s =
     (case get_dataset nz scenario of
        Inl e \<Rightarrow> Inl e
      | Inr full_data \<Rightarrow> Inr (if inject_failure s then inject_spike full_data else full_data))"

text \<open>\<^verbatim>\<open>range(0, stop, step)\<close>: a zero step raises ValueError.\<close>

definition py_range :: "nat \<Rightarrow> nat \<Rightarrow> py_error + nat list" where
  "py_range stop step =
     (if step = 0 then Inl ValueError
      else Inr (map (\<lambda>k. k * step) [0..<(stop + step - 1) div step]))"

text \<open>
  The buffer code of the loop body: the current point is appended to the keys time,
  pressure and displacement, and when the time key exceeds 200 entries every key is cut
  to its last 200.
\<close>

definition buffer_append_point :: "gsi_row \<Rightarrow> telemetry \<Rightarrow> telemetry" where
  "buffer_append_point current_point tb =
     (let tb1 = tb\<lparr>buf_time := buf_time tb @ [Time_Hrs current_point],
                   buf_pressure := buf_pressure tb @ [Pore_Water_Pressure_kPa current_point],
                   buf_displacement := buf_displacement tb @ [Displacement_mm current_point]\<rparr>;
          max_buffer = 200
      in if length (buf_time tb1) > max_buffer
         then \<lparr>buf_time = tail_slice max_buffer (buf_time tb1),
               buf_pressure = tail_slice max_buffer (buf_pressure tb1),
               buf_displacement = tail_slice max_buffer (buf_displacement tb1),
               buf_fos = tail_slice max_buffer (buf_fos tb1)\<rparr>
         else tb1)"

text \<open>Later in the body the factor of safety is appended and its key cut the same way.\<close>

definition buffer_append_fos :: "real \<Rightarrow> telemetry \<Rightarrow> telemetry" where
  "buffer_append_fos fos tb =
     (let tb1 = tb\<lparr>buf_fos := buf_fos tb @ [fos]\<rparr>;
          max_buffer = 200
      in if length (buf_fos tb1) > max_buffer
         then tb1\<lparr>buf_fos := tail_slice max_buffer (buf_fos tb1)\<rparr>
         else tb1)"

text \<open>The alarm latch of the live stream (\<^verbatim>\<open>Trigger alarm ONLY ONCE\<close>).\<close>

definition stream_alarm_latch :: "string \<Rightarrow> bool \<Rightarrow> session_state \<Rightarrow> session_state" where
  "stream_alarm_latch current_time critical s =
     (if critical \<and> \<not> alarm_already_logged s
      then s\<lparr>alarm_triggered := True, alarm_already_logged := True,
             command_log := command_log s @ stream_alarm_batch current_time\<rparr>
      else s)"

text \<open>The alarm latch of the manual forensics page, which also clears itself.\<close>

definition forensic_alarm_latch :: "string \<Rightarrow> bool \<Rightarrow> session_state \<Rightarrow> session_state" where
  "forensic_alarm_latch ct critical s =
     (if critical \<and> \<not> alarm_already_logged s
      then s\<lparr>alarm_triggered := True, alarm_already_logged := True,
             command_log := command_log s @ forensic_alarm_batch ct\<rparr>
      else if \<not> critical \<and> alarm_already_logged s
      then s\<lparr>alarm_triggered := False, alarm_already_logged := False\<rparr>
      else s)"

text \<open>
  One iteration of the live stream loop at index \<open>i\<close>, up to the rendering; \<open>clock i\<close> is
  what \<^verbatim>\<open>datetime.now().strftime('%H:%M:%S')\<close> returns in that iteration.
\<close>

definition stream_tick ::
  "ml_env \<Rightarrow> LithosML \<Rightarrow> (nat \<Rightarrow> string) \<Rightarrow> gsi_row list \<Rightarrow> nat \<Rightarrow> session_state
    \<Rightarrow> py_error + (session_state \<times> tick_view)" where
  "stream_tick env ml_engine clock full_data i s =
     (if length full_data \<le> i then Inl IndexError
      else
        let current_point = full_data ! i;
            tb = buffer_append_point current_point (telemetry_buffer s);
            history = take (i + 1) full_data;
            shear_stress = calculate_shear_stress (Displacement_mm current_point) 80 (25/10);
            fos = calculate_fos 50 35 120 (Pore_Water_Pressure_kPa current_point) shear_stress
        in case calculate_ttf (map Displacement_mm history) (Some (map Time_Hrs history)) (1/2) of
             Inl e \<Rightarrow> Inl e
           | Inr ttf \<Rightarrow>
               (case predict_risk env ml_engine (Pore_Water_Pressure_kPa current_point)
                       (Displacement_mm current_point) of
                  Inl e \<Rightarrow> Inl e
                | Inr (ml_risk, ml_prob) \<Rightarrow>
                    (let s1 = s\<lparr>telemetry_buffer := buffer_append_fos fos tb\<rparr>;
                         critical = (fos < 105/100);
                         s2 = stream_alarm_latch (clock i) critical s1
                     in Inr (s2,
                          \<lparr>tick_index = i, view_time = Time_Hrs current_point,
                           view_pressure = Pore_Water_Pressure_kPa current_point,
                           view_displacement = Displacement_mm current_point,
                           view_fos = fos, view_ttf = ttf, view_ml_risk = ml_risk,
                           view_ml_prob = ml_prob, is_critical = critical,
                           risk_level = (if critical then ''CRITICAL'' else ''SAFE'')\<rparr>))))"

text \<open>
  The loop over the indices: an exception ends it, and so does the \<^verbatim>\<open>break\<close> of a
  critical tick with \<open>i > 800\<close>. It returns the session state and the views it rendered.
\<close>

fun stream_loop ::
  "ml_env \<Rightarrow> LithosML \<Rightarrow> (nat \<Rightarrow> string) \<Rightarrow> gsi_row list \<Rightarrow> nat list \<Rightarrow> session_state
    \<Rightarrow> py_error + (session_state \<times> tick_view list)" where
  "stream_loop env ml_engine clock full_data [] s = Inr (s, [])"
| "stream_loop env ml_engine clock full_data (i # rest) s =
     (case stream_tick env ml_engine clock full_data i s of
        Inl e \<Rightarrow> Inl e
      | Inr (s', v) \<Rightarrow>
          if is_critical v \<and> i > 800 then Inr (s', [v])
          else (case stream_loop env ml_engine clock full_data rest s' of
                  Inl e \<Rightarrow> Inl e
                | Inr (s'', vs) \<Rightarrow> Inr (s'', v # vs)))"

definition live_stream ::
  "ml_env \<Rightarrow> LithosML \<Rightarrow> (nat \<Rightarrow> string) \<Rightarrow> gsi_row list \<Rightarrow> nat \<Rightarrow> session_state
    \<Rightarrow> py_error + (session_state \<times> tick_view list)" where
  "live_stream env ml_engine clock full_data playback_speed s =
     (case py_range (length full_data) playback_speed of
        Inl e \<Rightarrow> Inl e
      | Inr indices \<Rightarrow> stream_loop env ml_engine clock full_data indices s)"

definition tab1_live_stream ::
  "ml_env \<Rightarrow> LithosML \<Rightarrow> (nat \<Rightarrow> string) \<Rightarrow> noise \<Rightarrow> string \<Rightarrow> nat \<Rightarrow> session_state
    \<Rightarrow> py_error + (session_state \<times> tick_view list)" where
  "tab1_live_stream env ml_engine clock nz scenario playback_speed s =
     (case tab1_data nz scenario s of
        Inl e \<Rightarrow> Inl e
      | Inr full_data \<Rightarrow> live_stream env ml_engine clock full_data playback_speed s)"

text \<open>
  A session is a sequence of script runs: a replay of the live stream for a scenario, at a
  playback speed and with a clock, taken to the end of its loop, or a press of one of the
  two test controls.
  \<^verbatim>\<open>get_dataset\<close> is cached, so every scenario has one noise source for the session. An
  exception ends the modelled session. Evaluations of the manual forensics page and the
  siren test, which also write to the command log, are not events of this model.
\<close>

datatype session_event =
  LiveStreamRun string nat "nat \<Rightarrow> string"
| InjectFailureButton
| ResetButton

fun session_step ::
  "ml_env \<Rightarrow> LithosML \<Rightarrow> (string \<Rightarrow> noise) \<Rightarrow> session_event \<Rightarrow> session_state
    \<Rightarrow> py_error + session_state" where
  "session_step env ml_engine nz (LiveStreamRun scenario playback_speed clock) s =
     (case tab1_live_stream env ml_engine clock (nz scenario) scenario playback_speed s of
        Inl e \<Rightarrow> Inl e
      | Inr (s', views) \<Rightarrow> Inr s')"
| "session_step env ml_engine nz InjectFailureButton s = Inr (press_inject_failure s)"
| "session_step env ml_engine nz ResetButton s = Inr (press_reset s)"

fun run_session ::
  "ml_env \<Rightarrow> LithosML \<Rightarrow> (string \<Rightarrow> noise) \<Rightarrow> session_event list \<Rightarrow> session_state
    \<Rightarrow> py_error + session_state" where
  "run_session env ml_engine nz [] s = Inr s"
| "run_session env ml_engine nz (e # es) s =
     (case session_step env ml_engine nz e s of
        Inl x \<Rightarrow> Inl x
      | Inr s' \<Rightarrow> run_session env ml_engine nz es s')"

fun is_replay :: "session_event \<Rightarrow> bool" where
  "is_replay (LiveStreamRun _ _ _) = True"
| "is_replay InjectFailureButton = False"
| "is_replay ResetButton = False"

text \<open>
  One evaluation of the manual forensics page at a slider position; \<open>ct\<close> is the clock
  string of that evaluation.
\<close>

definition manual_forensics ::
  "ml_env \<Rightarrow> LithosML \<Rightarrow> string \<Rightarrow> gsi_row list \<Rightarrow> real \<Rightarrow> session_state
    \<Rightarrow> py_error + (session_state \<times> tick_view)" where
  "manual_forensics env ml_engine ct full_data timeline_hour s =
     (let selected = filter (\<lambda>r. Time_Hrs r \<le> timeline_hour) full_data;
          current_data = (if length selected = 0 then take 1 full_data else selected)
      in if current_data = [] then Inl IndexError
         else
           let latest = last current_data;
               shear = calculate_shear_stress (Displacement_mm latest) 80 (25/10);
               fos = calculate_fos 50 35 120 (Pore_Water_Pressure_kPa latest) shear
           in case calculate_ttf (map Displacement_mm current_data)
                     (Some (map Time_Hrs current_data)) (1/2) of
                Inl e \<Rightarrow> Inl e
              | Inr ttf \<Rightarrow>
                  (case predict_risk env ml_engine (Pore_Water_Pressure_kPa latest)
                          (Displacement_mm latest) of
                     Inl e \<Rightarrow> Inl e
                   | Inr (ml_risk, ml_prob) \<Rightarrow>
                       (let critical = (fos < 105/100);
                            s' = forensic_alarm_latch ct critical s
                        in Inr (s',
                             \<lparr>tick_index = length current_data - 1, view_time = Time_Hrs latest,
                              view_pressure = Pore_Water_Pressure_kPa latest,
                              view_displacement = Displacement_mm latest,
                              view_fos = fos, view_ttf = ttf, view_ml_risk = ml_risk,
                              view_ml_prob = ml_prob, is_critical = critical,
                              risk_level = (if critical then ''CRITICAL'' else ''SAFE'')\<rparr>))))"

section \<open>Auxiliary definitions for the statements\<close>

text \<open>The factor of safety and the criticality that the monitoring code computes for a row.\<close>

definition row_fos :: "gsi_row \<Rightarrow> real" where
  "row_fos r =
     calculate_fos 50 35 120 (Pore_Water_Pressure_kPa r)
       (calculate_shear_stress (Displacement_mm r) 80 (25/10))"

definition row_critical :: "gsi_row \<Rightarrow> bool" where
  "row_critical r = (row_fos r < 105/100)"

text \<open>
  A telemetry buffer as the loop keeps it: the keys time, pressure and displacement have
  the same number of entries, and no key has more than 200.
\<close>

definition buffer_aligned :: "telemetry \<Rightarrow> bool" where
  "buffer_aligned tb =
     (length (buf_pressure tb) = length (buf_time tb)
      \<and> length (buf_displacement tb) = length (buf_time tb)
      \<and> length (buf_time tb) \<le> 200 \<and> length (buf_fos tb) \<le> 200)"

text \<open>The session state after a tick of the live stream at index \<open>i\<close>.\<close>

definition tick_state ::
  "(nat \<Rightarrow> string) \<Rightarrow> gsi_row list \<Rightarrow> nat \<Rightarrow> session_state \<Rightarrow> session_state" where
  "tick_state clock full_data i s =
     stream_alarm_latch (clock i) (row_critical (full_data ! i))
       (s\<lparr>telemetry_buffer :=
            buffer_append_fos (row_fos (full_data ! i))
              (buffer_append_point (full_data ! i) (telemetry_buffer s))\<rparr>)"

text \<open>
  The classifier call returns for every row of a table: it raises only when the model is
  loaded, its invocation fails and the report of the failure cannot be printed.
\<close>

definition risk_call_returns :: "ml_env \<Rightarrow> LithosML \<Rightarrow> gsi_row list \<Rightarrow> bool" where
  "risk_call_returns env ml_engine rows =
     list_all (\<lambda>r. case predict_risk env ml_engine (Pore_Water_Pressure_kPa r) (Displacement_mm r) of
                      Inl _ \<Rightarrow> False | Inr _ \<Rightarrow> True) rows"

text \<open>
  Concrete collaborators for the evaluations: a classifier whose \<open>predict\<close> raises; no
  artifact on disk and a standard output that takes every text; the raising classifier on
  disk and a standard output that takes every text; a standard output that takes ASCII
  only; an engine without a model and one with the raising classifier.
\<close>

definition failing_classifier :: classifier where
  "failing_classifier =
     \<lparr>predict = (\<lambda>_ _. Inl RuntimeError), predict_proba = (\<lambda>_ _. Inr [[1/2, 1/2]])\<rparr>"

definition bare_env :: ml_env where
  "bare_env =
     \<lparr>joblib_importable = True, pandas_importable = True, path_exists = (\<lambda>_. False),
      joblib_load = (\<lambda>_. Inl RuntimeError), stdout_write = (\<lambda>_. None),
      error_text = (\<lambda>_. ''error'')\<rparr>"

definition loading_env :: ml_env where
  "loading_env =
     \<lparr>joblib_importable = True, pandas_importable = True, path_exists = (\<lambda>_. True),
      joblib_load = (\<lambda>_. Inr failing_classifier), stdout_write = (\<lambda>_. None),
      error_text = (\<lambda>_. ''error'')\<rparr>"

definition ascii_env :: ml_env where
  "ascii_env =
     \<lparr>joblib_importable = True, pandas_importable = True, path_exists = (\<lambda>_. False),
      joblib_load = (\<lambda>_. Inl RuntimeError),
      stdout_write = (\<lambda>msg. if list_all (\<lambda>c. of_char c < (128::nat)) msg then None
                              else Some UnicodeEncodeError),
      error_text = (\<lambda>_. ''error'')\<rparr>"

definition unloaded_engine :: LithosML where
  "unloaded_engine =
     \<lparr>model_path = ''models/seismic_classifier.pkl'', model = None, model_loaded = False\<rparr>"

definition failing_engine :: LithosML where
  "failing_engine =
     \<lparr>model_path = ''models/seismic_classifier.pkl'', model = Some failing_classifier,
      model_loaded = True\<rparr>"

text \<open>A clock that shows the index of the evaluation in its seconds.\<close>

definition tick_clock :: "nat \<Rightarrow> string" where
  "tick_clock i = (if i = 0 then ''12:00:00'' else if i = 1 then ''12:00:01'' else ''12:00:02'')"

text \<open>A table row with a given time, pore pressure and displacement.\<close>

definition probe_row :: "real \<Rightarrow> real \<Rightarrow> real \<Rightarrow> gsi_row" where
  "probe_row t p d =
     \<lparr>Time_Hrs = t, Lithology = ''Quartzite (Fractured)'', RQD = 45,
      Pore_Water_Pressure_kPa = p, Raw_Acoustic_Emission_g = 0, Displacement_mm = d,
      Scenario_Intensity = 0\<rparr>"

text \<open>A noise source whose first normal draw is 100 everywhere.\<close>

definition loud_noise :: noise where
  "loud_noise = \<lparr>rqd_noise = (\<lambda>_. 0), normal1 = (\<lambda>_. 100), normal2 = (\<lambda>_. 0), normal3 = (\<lambda>_. 0)\<rparr>"

text \<open>The same noise source for every scenario, and a clock that shows one later time.\<close>

definition loud_source :: "string \<Rightarrow> noise" where
  "loud_source scenario = loud_noise"

definition late_clock :: "nat \<Rightarrow> string" where
  "late_clock i = ''12:05:00''"

section \<open>Bounds on the tangent of 35 degrees\<close>

lemma py_max_eq_max: "py_max a b = max a b"
  by (simp add: py_max_def max_def)

lemma cos_Maclaurin_bound:
  fixes x :: real
  assumes "0 < x" and "0 < n"
  shows "\<bar>cos x - (\<Sum>m<n. cos_coeff m * x ^ m)\<bar> \<le> x ^ n / fact n"
proof -
  obtain t where t: "cos x = (\<Sum>m<n. cos_coeff m * x ^ m)
      + (cos (t + 1/2 * real n * pi) / fact n) * x ^ n"
    using Maclaurin_cos_expansion2 [OF assms] by auto
  have "\<bar>cos (t + 1/2 * real n * pi)\<bar> \<le> 1"
    by (rule abs_cos_le_one)
  then have "\<bar>(cos (t + 1/2 * real n * pi) / fact n) * x ^ n\<bar> \<le> (1 / fact n) * x ^ n"
    using assms by (simp add: abs_mult divide_simps mult_right_mono)
  with t show ?thesis by simp
qed

lemma cos_sum12:
  "(\<Sum>m<12. cos_coeff m * x ^ m)
    = 1 - x^2/2 + x^4/24 - x^6/720 + x^8/40320 - x^10/3628800" for x :: real
  by (simp add: lessThan_nat_numeral cos_coeff_def fact_numeral)

lemma cos_sum8: "(\<Sum>m<8. cos_coeff m * x ^ m) = 1 - x^2/2 + x^4/24 - x^6/720" for x :: real
  by (simp add: lessThan_nat_numeral cos_coeff_def fact_numeral)

lemma sin_sum8: "(\<Sum>m<8. sin_coeff m * x ^ m) = x - x^3/6 + x^5/120 - x^7/5040" for x :: real
  by (simp add: lessThan_nat_numeral sin_coeff_def fact_numeral)

lemma fact12: "fact 12 = (479001600::real)"
  by (simp add: fact_numeral)

lemma fact8: "fact 8 = (40320::real)"
  by (simp add: fact_numeral)

lemma cos_bounds12:
  fixes x :: real
  assumes "0 < x"
  shows "1 - x^2/2 + x^4/24 - x^6/720 + x^8/40320 - x^10/3628800 - x^12/479001600 \<le> cos x"
    and "cos x \<le> 1 - x^2/2 + x^4/24 - x^6/720 + x^8/40320 - x^10/3628800 + x^12/479001600"
  using cos_Maclaurin_bound [OF assms, of 12] unfolding cos_sum12 fact12 by linarith+

lemma cos_bounds8:
  fixes x :: real
  assumes "0 < x"
  shows "1 - x^2/2 + x^4/24 - x^6/720 - x^8/40320 \<le> cos x"
    and "cos x \<le> 1 - x^2/2 + x^4/24 - x^6/720 + x^8/40320"
  using cos_Maclaurin_bound [OF assms, of 8] unfolding cos_sum8 fact8 by linarith+

lemma sin_bounds8:
  fixes x :: real
  assumes "0 < x"
  shows "x - x^3/6 + x^5/120 - x^7/5040 - x^8/40320 \<le> sin x"
    and "sin x \<le> x - x^3/6 + x^5/120 - x^7/5040 + x^8/40320"
proof -
  have "inverse 40320 * \<bar>x\<bar> ^ 8 = x^8/40320"
    using assms by simp
  then have "\<bar>sin x - (x - x^3/6 + x^5/120 - x^7/5040)\<bar> \<le> x^8/40320"
    using Maclaurin_sin_bound [of x 8] unfolding sin_sum8 fact8 by linarith
  then show "x - x^3/6 + x^5/120 - x^7/5040 - x^8/40320 \<le> sin x"
    and "sin x \<le> x - x^3/6 + x^5/120 - x^7/5040 + x^8/40320"
    by linarith+
qed

lemma scaled_less:
  fixes c s k :: real
  assumes "c \<le> cU" and "sL \<le> s" and "k * cU < sL" and "0 \<le> k"
  shows "k * c < s"
proof -
  have "k * c \<le> k * cU"
    using assms(1,4) by (rule mult_left_mono)
  with assms(2,3) show ?thesis by linarith
qed

lemma scaled_greater:
  fixes c s k :: real
  assumes "cL \<le> c" and "s \<le> sU" and "sU < k * cL" and "0 \<le> k"
  shows "s < k * c"
proof -
  have "k * cL \<le> k * c"
    using assms(1,4) by (rule mult_left_mono)
  with assms(2,3) show ?thesis by linarith
qed

lemma cos_3141_pos: "0 < cos (3141/2000 :: real)"
proof -
  have "(0::real) < 1 - (3141/2000)^2/2 + (3141/2000)^4/24 - (3141/2000)^6/720
      + (3141/2000)^8/40320 - (3141/2000)^10/3628800 - (3141/2000)^12 / 479001600"
    by (simp add: power_divide)
  also have "\<dots> \<le> cos (3141/2000)"
    by (rule cos_bounds12) simp
  finally show ?thesis .
qed

lemma cos_1571_neg: "cos (1571/1000 :: real) < 0"
proof -
  have "cos (1571/1000 :: real) \<le> 1 - (1571/1000)^2/2 + (1571/1000)^4/24 - (1571/1000)^6/720
      + (1571/1000)^8/40320 - (1571/1000)^10/3628800 + (1571/1000)^12 / 479001600"
    by (rule cos_bounds12) simp
  also have "\<dots> < 0"
    by (simp add: power_divide)
  finally show ?thesis .
qed

lemma pi_gt_3141: "3141/1000 < pi"
proof (rule ccontr)
  assume "\<not> 3141/1000 < pi"
  then have le: "pi/2 \<le> 3141/2000" by simp
  have "3141/2000 \<le> pi"
    using pi_ge_two by simp
  then have "cos (3141/2000) \<le> cos (pi/2)"
    using le by (intro cos_monotone_0_pi_le) auto
  with cos_3141_pos show False by simp
qed

lemma pi_lt_3142: "pi < 3142/1000"
proof (rule ccontr)
  assume "\<not> pi < 3142/1000"
  then have le: "1571/1000 \<le> pi/2" by simp
  then have "cos (pi/2) \<le> cos (1571/1000)"
    by (intro cos_monotone_0_pi_le) auto
  with cos_1571_neg show False by simp
qed

lemma tan_35_bounds:
  "7/10 < tan (35 * pi / 180)" "tan (35 * pi / 180) < 7004/10000"
proof -
  let ?a = "2443/4000 :: real" and ?b = "12219/20000 :: real" and ?x = "35 * pi / 180"
  have xa: "?a \<le> ?x"
    using pi_gt_3141 by simp
  have xb: "?x \<le> ?b"
    using pi_lt_3142 by simp
  have b_half: "?b < pi/2"
    using pi_gt_3141 by simp
  have cos_a_pos: "0 < cos ?a"
    using b_half by (intro cos_gt_zero_pi) auto
  have cos_b_pos: "0 < cos ?b"
    using b_half by (intro cos_gt_zero_pi) auto
  have "7/10 * cos ?a < sin ?a"
  proof (rule scaled_less)
    show "cos ?a \<le> 1 - ?a^2/2 + ?a^4/24 - ?a^6/720 + ?a^8 / 40320"
      by (rule cos_bounds8) simp
    show "?a - ?a^3/6 + ?a^5/120 - ?a^7/5040 - ?a^8 / 40320 \<le> sin ?a"
      by (rule sin_bounds8) simp
    show "7/10 * (1 - ?a^2/2 + ?a^4/24 - ?a^6/720 + ?a^8 / 40320)
        < ?a - ?a^3/6 + ?a^5/120 - ?a^7/5040 - ?a^8 / 40320"
      by (simp add: power_divide)
  qed simp
  then have "7/10 < tan ?a"
    using cos_a_pos by (simp add: tan_def divide_simps)
  also have "tan ?a \<le> tan ?x"
    using xa xb b_half by (intro tan_mono_le) auto
  finally show "7/10 < tan ?x" .
  have "sin ?b < 7004/10000 * cos ?b"
  proof (rule scaled_greater)
    show "1 - ?b^2/2 + ?b^4/24 - ?b^6/720 - ?b^8 / 40320 \<le> cos ?b"
      by (rule cos_bounds8) simp
    show "sin ?b \<le> ?b - ?b^3/6 + ?b^5/120 - ?b^7/5040 + ?b^8 / 40320"
      by (rule sin_bounds8) simp
    show "?b - ?b^3/6 + ?b^5/120 - ?b^7/5040 + ?b^8 / 40320
        < 7004/10000 * (1 - ?b^2/2 + ?b^4/24 - ?b^6/720 - ?b^8 / 40320)"
      by (simp add: power_divide)
  qed simp
  then have "tan ?b < 7004/10000"
    using cos_b_pos by (simp add: tan_def divide_simps)
  moreover have "tan ?x \<le> tan ?b"
    using xa xb b_half by (intro tan_mono_le) auto
  ultimately show "tan ?x < 7004/10000" by linarith
qed

lemma tan_radians_35: "7/10 < tan (radians 35)" "tan (radians 35) < 7004/10000"
  using tan_35_bounds by (simp_all add: radians_def)

section \<open>The factor of safety\<close>

text \<open>
  C1. For every input, \<open>calculate_fos\<close> returns
  \<open>(cohesion + max(normal_stress - pore_pressure, 0.1) * tan(radians(friction_angle)))
  / max(shear_stress, 0.1)\<close>. At \<open>(50, 35, 120, 0, 100)\<close> the result lies within 0.001 of
  1.34, and whenever the pore pressure is at least the normal stress the effective normal
  stress is the floor 0.1.
\<close>

theorem calculate_fos_formula:
  "calculate_fos c phi sigma u tau
     = (c + max (sigma - u) (1/10) * tan (radians phi)) / max tau (1/10)
   \<and> \<bar>calculate_fos 50 35 120 0 100 - 134/100\<bar> < 1/1000
   \<and> (sigma \<le> u \<longrightarrow>
        calculate_fos c phi sigma u tau = (c + (1/10) * tan (radians phi)) / max tau (1/10))"
proof (intro conjI impI)
  show formula: "calculate_fos c phi sigma u tau
      = (c + max (sigma - u) (1/10) * tan (radians phi)) / max tau (1/10)"
    by (simp add: calculate_fos_def py_max_eq_max)
  have "calculate_fos 50 35 120 0 100 = (50 + 120 * tan (radians 35)) / 100"
    by (simp add: calculate_fos_def py_max_eq_max)
  then show "\<bar>calculate_fos 50 35 120 0 100 - 134/100\<bar> < 1/1000"
    using tan_radians_35 by simp
  assume "sigma \<le> u"
  then have "max (sigma - u) (1/10) = 1/10"
    by simp
  with formula
  show "calculate_fos c phi sigma u tau = (c + (1/10) * tan (radians phi)) / max tau (1/10)"
    by simp
qed

theorem calculate_fos_formula_witness:
  "(120::real) \<le> 120
   \<and> calculate_fos 50 35 120 120 1 = (50 + (1/10) * tan (radians 35)) / max 1 (1/10)"
  using calculate_fos_formula [of 50 35 120 120 1] by simp

section \<open>The inverse velocity and the time to failure\<close>

lemma float_overflow_large: "10000 < float_overflow"
proof -
  have "(2::real) ^ 970 * 2 \<le> 2 ^ 970 * 2 ^ 54 - 2 ^ 970"
    by simp
  moreover have "(2::real) ^ 1024 = 2 ^ 970 * 2 ^ 54"
    by (simp add: power_add [symmetric])
  moreover have "(10000::real) < 2 ^ 970"
  proof -
    have "(10000::real) < 2 ^ 14" by simp
    also have "\<dots> \<le> 2 ^ 970" by (rule power_increasing) simp_all
    finally show ?thesis .
  qed
  ultimately show ?thesis
    by (simp add: float_overflow_def)
qed

lemma np_overflow_finite: "\<bar>r\<bar> < float_overflow \<Longrightarrow> np_overflow r = Finite r"
  by (auto simp: np_overflow_def)

lemma np_overflow_small [simp]: "\<bar>r\<bar> \<le> 10000 \<Longrightarrow> np_overflow r = Finite r"
  using float_overflow_large by (intro np_overflow_finite) linarith


lemma spec_last10_eq: "spec_last10 xs = tail_slice 10 xs"
  by (simp add: spec_last10_def tail_slice_def rev_take)

lemma length_tail_slice: "length (tail_slice k xs) = min k (length xs)"
  by (simp add: tail_slice_def)

lemma tail_slice_last2:
  assumes "2 \<le> length xs"
  shows "tail_slice 10 xs ! (length (tail_slice 10 xs) - 1) = xs ! (length xs - 1)"
    and "tail_slice 10 xs ! (length (tail_slice 10 xs) - 2) = xs ! (length xs - 2)"
proof -
  show "tail_slice 10 xs ! (length (tail_slice 10 xs) - 1) = xs ! (length xs - 1)"
  proof (cases "length xs \<le> 10")
    case True
    then show ?thesis by (simp add: tail_slice_def)
  next
    case False
    then have "length xs - 10 + 9 = length xs - 1" by arith
    with False show ?thesis by (simp add: tail_slice_def)
  qed
  show "tail_slice 10 xs ! (length (tail_slice 10 xs) - 2) = xs ! (length xs - 2)"
  proof (cases "length xs \<le> 10")
    case True
    then show ?thesis by (simp add: tail_slice_def)
  next
    case False
    then have "length xs - 10 + 8 = length xs - 2" by arith
    with False show ?thesis by (simp add: tail_slice_def)
  qed
qed

lemmas tail_slice_last2_Suc = tail_slice_last2 [unfolded One_nat_def]

lemma last_step_window: "2 \<le> length xs \<Longrightarrow> last_step (tail_slice 10 xs) = last_step xs"
  by (simp add: last_step_def tail_slice_last2_Suc)

lemma last_spec_gradient:
  assumes "2 \<le> length f"
  shows "last (spec_gradient f x)
    = np_divide (np_sub (f ! (length f - 1)) (f ! (length f - 2)))
        (np_sub (x ! (length f - 1)) (x ! (length f - 2)))"
proof -
  have "f \<noteq> []"
    using assms by auto
  then show ?thesis
    using assms by (simp add: spec_gradient_def Let_def last_map)
qed

text \<open>What the code returns for a velocity, and the same for a finite velocity.\<close>

lemma velocity_result_finite:
  "(if np_less (np_abs (Finite v)) (1/10000) then Finite 99 else np_recip (np_abs (Finite v)))
    = Finite (if \<bar>v\<bar> < 1/10000 then 99 else 1 / \<bar>v\<bar>)"
proof (cases "\<bar>v\<bar> < 1/10000")
  case True
  then show ?thesis by simp
next
  case False
  then have pos: "0 < \<bar>v\<bar>" and le: "1 \<le> 10000 * \<bar>v\<bar>" by linarith+
  then have "\<bar>1 / \<bar>v\<bar>\<bar> \<le> 10000"
    by (simp add: divide_le_eq)
  then have "np_overflow (1 / \<bar>v\<bar>) = Finite (1 / \<bar>v\<bar>)"
    by (rule np_overflow_small)
  with False pos show ?thesis
    by (simp add: np_recip_def)
qed


lemma inverse_velocity_short: "length d < 5 \<Longrightarrow> inverse_velocity d t = Inr (Finite 999)"
  by (simp add: inverse_velocity_def)

lemma inverse_velocity_None:
  assumes "5 \<le> length d"
  shows "inverse_velocity d None =
    Inr (let v = np_divide (np_sub (d ! (length d - 1)) (d ! (length d - 2))) (Finite 1)
         in if np_less (np_abs v) (1/10000) then Finite 99 else np_recip (np_abs v))"
proof -
  have "2 \<le> length (tail_slice 10 d)" and "2 \<le> length d"
    using assms by (simp_all add: length_tail_slice)
  then show ?thesis
    using assms
    by (simp add: inverse_velocity_def np_gradient_last_def Let_def tail_slice_last2_Suc
        del: np_abs.simps np_less.simps np_divide.simps)
qed

lemma inverse_velocity_Some:
  assumes "5 \<le> length d" and "length (tail_slice 10 ts) = length (tail_slice 10 d)"
  shows "inverse_velocity d (Some ts) =
    Inr (let v = np_divide (np_sub (d ! (length d - 1)) (d ! (length d - 2)))
                   (np_sub (ts ! (length ts - 1)) (ts ! (length ts - 2)))
         in if np_less (np_abs v) (1/10000) then Finite 99 else np_recip (np_abs v))"
proof -
  have w: "2 \<le> length (tail_slice 10 d)" and d2: "2 \<le> length d"
    using assms(1) by (simp_all add: length_tail_slice)
  have t2: "2 \<le> length ts"
    using w assms(2) by (simp add: length_tail_slice)
  have "np_gradient_last (tail_slice 10 d) (Some (tail_slice 10 ts))
      = Inr (np_divide (np_sub (d ! (length d - 1)) (d ! (length d - 2)))
                   (np_sub (ts ! (length ts - 1)) (ts ! (length ts - 2))))"
    using w assms(2) tail_slice_last2_Suc [OF d2] tail_slice_last2_Suc [OF t2]
    by (simp add: np_gradient_last_def Let_def del: np_divide.simps)
  then show ?thesis
    using assms(1)
    by (simp add: inverse_velocity_def Let_def del: np_abs.simps np_less.simps np_divide.simps)
qed

lemma inverse_velocity_mismatch:
  assumes "5 \<le> length d" and "length (tail_slice 10 ts) \<noteq> length (tail_slice 10 d)"
  shows "inverse_velocity d (Some ts) = Inl ValueError"
  using assms by (simp add: inverse_velocity_def np_gradient_last_def Let_def)

lemma inverse_velocity_regular_None:
  assumes "5 \<le> length d" and "\<bar>last_step d\<bar> < float_overflow"
  shows "inverse_velocity d None
    = Inr (Finite (if \<bar>last_step d\<bar> < 1/10000 then 99 else 1 / \<bar>last_step d\<bar>))"
proof -
  have "np_divide (np_sub (d ! (length d - 1)) (d ! (length d - 2))) (Finite 1)
      = Finite (last_step d)"
    using assms(2) by (simp add: np_sub_def last_step_def np_overflow_finite)
  then show ?thesis
    unfolding inverse_velocity_None [OF assms(1)] Let_def
    by (simp only: velocity_result_finite)
qed

lemma inverse_velocity_regular_Some:
  assumes "5 \<le> length d" and "length (tail_slice 10 ts) = length (tail_slice 10 d)"
    and "last_step ts \<noteq> 0"
    and "\<bar>last_step d\<bar> < float_overflow" and "\<bar>last_step ts\<bar> < float_overflow"
    and "\<bar>last_step d / last_step ts\<bar> < float_overflow"
  shows "inverse_velocity d (Some ts)
    = Inr (Finite (if \<bar>last_step d / last_step ts\<bar> < 1/10000 then 99
                   else 1 / \<bar>last_step d / last_step ts\<bar>))"
proof -
  have "np_divide (np_sub (d ! (length d - 1)) (d ! (length d - 2)))
                   (np_sub (ts ! (length ts - 1)) (ts ! (length ts - 2)))
      = Finite (last_step d / last_step ts)"
    using assms(3-6) by (simp add: np_sub_def last_step_def np_overflow_finite)
  then show ?thesis
    unfolding inverse_velocity_Some [OF assms(1,2)] Let_def
    by (simp only: velocity_result_finite)
qed

lemma spec_inverse_velocity_eq:
  assumes "5 \<le> length d"
    and "case t of None \<Rightarrow> True | Some ts \<Rightarrow> length (spec_last10 ts) = length (spec_last10 d)"
  shows "inverse_velocity d t = Inr (spec_inverse_velocity d t)"
proof -
  have w2: "2 \<le> length (tail_slice 10 d)" and d2: "2 \<le> length d"
    using assms(1) by (simp_all add: length_tail_slice)
  show ?thesis
  proof (cases t)
    case None
    have one: "np_sub (real (length (tail_slice 10 d) - 1)) (real (length (tail_slice 10 d) - 2))
        = Finite 1"
      using w2 by (simp add: np_sub_def)
    have "spec_inverse_velocity d None =
      (let v = np_divide (np_sub (d ! (length d - 1)) (d ! (length d - 2))) (Finite 1)
         in if np_less (np_abs v) (1/10000) then Finite 99 else np_recip (np_abs v))"
      using assms(1) w2 one tail_slice_last2_Suc [OF d2]
      by (simp add: spec_inverse_velocity_def spec_last10_eq last_spec_gradient Let_def np_recip_def
          del: np_abs.simps np_less.simps np_divide.simps)
    then show ?thesis
      unfolding None inverse_velocity_None [OF assms(1)] by simp
  next
    case (Some ts)
    with assms(2) have wl: "length (tail_slice 10 ts) = length (tail_slice 10 d)"
      by (simp add: spec_last10_eq)
    have t2: "2 \<le> length ts"
      using w2 wl by (simp add: length_tail_slice)
    have "spec_inverse_velocity d (Some ts) =
      (let v = np_divide (np_sub (d ! (length d - 1)) (d ! (length d - 2)))
                   (np_sub (ts ! (length ts - 1)) (ts ! (length ts - 2)))
         in if np_less (np_abs v) (1/10000) then Finite 99 else np_recip (np_abs v))"
      using assms(1) w2 wl tail_slice_last2_Suc [OF d2] tail_slice_last2_Suc [OF t2]
      by (simp add: spec_inverse_velocity_def spec_last10_eq last_spec_gradient Let_def np_recip_def
          del: np_abs.simps np_less.simps np_divide.simps)
    then show ?thesis
      unfolding Some inverse_velocity_Some [OF assms(1) wl] by simp
  qed
qed

text \<open>
  C2, amended. \<open>inverse_velocity\<close> equals the reference definition for every displacement
  series, provided that a given time series has as many samples in its last-10 window as
  the displacement series has in its own (which matters from 5 displacement samples on);
  with a time window of another length it raises ValueError. Where the last two time
  values differ and nothing overflows, this is 99 for \<open>|v| < 1e-4\<close> and \<open>1/|v|\<close>
  otherwise, with \<open>v\<close> the quotient of the last displacement step by the last time step
  (or by 1 without a time series). On \<open>[1, ..., 10]\<close> with unit time steps the result is 1.
\<close>

theorem inverse_velocity_refines_spec:
  "((case t of None \<Rightarrow> True
     | Some ts \<Rightarrow> 5 \<le> length d \<longrightarrow> length (spec_last10 ts) = length (spec_last10 d))
    \<longrightarrow> inverse_velocity d t = Inr (spec_inverse_velocity d t))
   \<and> (5 \<le> length d \<and> length (spec_last10 ts) \<noteq> length (spec_last10 d)
        \<longrightarrow> inverse_velocity d (Some ts) = Inl ValueError)
   \<and> (length d < 5 \<longrightarrow> inverse_velocity d t = Inr (Finite 999))
   \<and> (5 \<le> length d \<and> \<bar>last_step d\<bar> < float_overflow
        \<longrightarrow> inverse_velocity d None
            = Inr (Finite (if \<bar>last_step d\<bar> < 1/10000 then 99 else 1 / \<bar>last_step d\<bar>)))
   \<and> (5 \<le> length d \<and> length (spec_last10 ts) = length (spec_last10 d)
        \<and> last_step ts \<noteq> 0 \<and> \<bar>last_step d\<bar> < float_overflow
        \<and> \<bar>last_step ts\<bar> < float_overflow \<and> \<bar>last_step d / last_step ts\<bar> < float_overflow
        \<longrightarrow> inverse_velocity d (Some ts)
            = Inr (Finite (if \<bar>last_step d / last_step ts\<bar> < 1/10000 then 99
                           else 1 / \<bar>last_step d / last_step ts\<bar>)))
   \<and> inverse_velocity [1, 2, 3, 4, 5, 6, 7, 8, 9, 10] None = Inr (Finite 1)
   \<and> inverse_velocity [1, 2, 3, 4, 5, 6, 7, 8, 9, 10] (Some [0, 1, 2, 3, 4, 5, 6, 7, 8, 9])
       = Inr (Finite 1)"
proof (intro conjI impI)
  assume ok: "case t of None \<Rightarrow> True
     | Some ts \<Rightarrow> 5 \<le> length d \<longrightarrow> length (spec_last10 ts) = length (spec_last10 d)"
  show "inverse_velocity d t = Inr (spec_inverse_velocity d t)"
  proof (cases "length d < 5")
    case True
    then show ?thesis
      by (simp add: inverse_velocity_short spec_inverse_velocity_def)
  next
    case False
    then have len: "5 \<le> length d" by simp
    with ok have "case t of None \<Rightarrow> True
        | Some ts \<Rightarrow> length (spec_last10 ts) = length (spec_last10 d)"
      by (cases t) simp_all
    with len show ?thesis by (rule spec_inverse_velocity_eq)
  qed
next
  assume "5 \<le> length d \<and> length (spec_last10 ts) \<noteq> length (spec_last10 d)"
  then show "inverse_velocity d (Some ts) = Inl ValueError"
    by (intro inverse_velocity_mismatch) (simp_all add: spec_last10_eq)
next
  assume "length d < 5"
  then show "inverse_velocity d t = Inr (Finite 999)"
    by (rule inverse_velocity_short)
next
  assume "5 \<le> length d \<and> \<bar>last_step d\<bar> < float_overflow"
  then show "inverse_velocity d None
      = Inr (Finite (if \<bar>last_step d\<bar> < 1/10000 then 99 else 1 / \<bar>last_step d\<bar>))"
    by (intro inverse_velocity_regular_None) simp_all
next
  assume "5 \<le> length d \<and> length (spec_last10 ts) = length (spec_last10 d)
        \<and> last_step ts \<noteq> 0 \<and> \<bar>last_step d\<bar> < float_overflow
        \<and> \<bar>last_step ts\<bar> < float_overflow \<and> \<bar>last_step d / last_step ts\<bar> < float_overflow"
  then show "inverse_velocity d (Some ts)
      = Inr (Finite (if \<bar>last_step d / last_step ts\<bar> < 1/10000 then 99
                     else 1 / \<bar>last_step d / last_step ts\<bar>))"
    by (intro inverse_velocity_regular_Some) (simp_all add: spec_last10_eq)
next
  have one: "\<bar>1::real\<bar> < float_overflow"
    using float_overflow_large by simp
  have "last_step [1, 2, 3, 4, 5, 6, 7, 8, 9, 10] = 1"
    by (simp add: last_step_def)
  then show "inverse_velocity [1, 2, 3, 4, 5, 6, 7, 8, 9, 10] None = Inr (Finite 1)"
    using inverse_velocity_regular_None [of "[1, 2, 3, 4, 5, 6, 7, 8, 9, 10]"] one by simp
  have "last_step [0, 1, 2, 3, 4, 5, 6, 7, 8, 9] = 1"
    by (simp add: last_step_def)
  moreover have "last_step [1, 2, 3, 4, 5, 6, 7, 8, 9, 10] = 1"
    by (simp add: last_step_def)
  ultimately
  show "inverse_velocity [1, 2, 3, 4, 5, 6, 7, 8, 9, 10] (Some [0, 1, 2, 3, 4, 5, 6, 7, 8, 9])
       = Inr (Finite 1)"
    using inverse_velocity_regular_Some [of "[1, 2, 3, 4, 5, 6, 7, 8, 9, 10]"
        "[0, 1, 2, 3, 4, 5, 6, 7, 8, 9]"] one
    by (simp add: tail_slice_def)
qed

text \<open>
  C2 as stated fails for a time series of another length than the displacement series:
  with 6 displacements and 5 time values numpy's gradient raises ValueError, where the
  reference definition has a value.
\<close>

theorem inverse_velocity_reference_counterexample:
  "inverse_velocity [1, 2, 3, 4, 5, 6] (Some [0, 1, 2, 3, 4]) = Inl ValueError
   \<and> inverse_velocity [1, 2, 3, 4, 5, 6] (Some [0, 1, 2, 3, 4])
       \<noteq> Inr (spec_inverse_velocity [1, 2, 3, 4, 5, 6] (Some [0, 1, 2, 3, 4]))"
  by (simp add: inverse_velocity_def np_gradient_last_def tail_slice_def)

theorem inverse_velocity_refines_spec_witness:
  "5 \<le> length [0, 1, 4, 9, 16, 25, 36, 49, 64, 81, 100, 121 :: real]
   \<and> length (spec_last10 [0, 1, 2, 3, 4, 5, 6, 7, 8, 9, 11 :: real])
        = length (spec_last10 [0, 1, 4, 9, 16, 25, 36, 49, 64, 81, 100, 121 :: real])
   \<and> last_step [0, 1, 2, 3, 4, 5, 6, 7, 8, 9, 11] \<noteq> 0
   \<and> inverse_velocity [0, 1, 4, 9, 16, 25, 36, 49, 64, 81, 100, 121]
        (Some [0, 1, 2, 3, 4, 5, 6, 7, 8, 9, 11])
       = Inr (spec_inverse_velocity [0, 1, 4, 9, 16, 25, 36, 49, 64, 81, 100, 121]
               (Some [0, 1, 2, 3, 4, 5, 6, 7, 8, 9, 11]))
   \<and> inverse_velocity [0, 1, 4, 9, 16, 25, 36, 49, 64, 81, 100, 121]
        (Some [0, 1, 2, 3, 4, 5, 6, 7, 8, 9, 11])
       = Inr (Finite (2/21))
   \<and> length (spec_last10 [0, 1, 2, 3, 4 :: real]) \<noteq> length (spec_last10 [1, 2, 3, 4, 5, 6 :: real])
   \<and> inverse_velocity [1, 2, 3, 4, 5, 6] (Some [0, 1, 2, 3, 4]) = Inl ValueError
   \<and> length [1, 2, 3 :: real] < 5
   \<and> inverse_velocity [1, 2, 3] (Some [0]) = Inr (Finite 999)"
proof -
  let ?d = "[0, 1, 4, 9, 16, 25, 36, 49, 64, 81, 100, 121 :: real]"
  let ?t = "[0, 1, 2, 3, 4, 5, 6, 7, 8, 9, 11 :: real]"
  have sd: "last_step ?d = 21" and st: "last_step ?t = 2"
    by (simp_all add: last_step_def)
  have small: "\<bar>21::real\<bar> < float_overflow" "\<bar>2::real\<bar> < float_overflow"
    "\<bar>21 / 2 :: real\<bar> < float_overflow"
    using float_overflow_large by simp_all
  have win: "length (spec_last10 ?t) = length (spec_last10 ?d)"
    by (simp add: spec_last10_def)
  have mis: "length (spec_last10 [0, 1, 2, 3, 4 :: real])
      \<noteq> length (spec_last10 [1, 2, 3, 4, 5, 6 :: real])"
    by (simp add: spec_last10_def)
  have val: "(if \<bar>last_step ?d / last_step ?t\<bar> < 1/10000 then 99
               else 1 / \<bar>last_step ?d / last_step ?t\<bar>) = 2/21"
    by (simp add: sd st)
  note thm1 = inverse_velocity_refines_spec [where d = ?d and t = "Some ?t" and ts = ?t]
  note thm2 = inverse_velocity_refines_spec
    [where d = "[1, 2, 3, 4, 5, 6]" and t = None and ts = "[0, 1, 2, 3, 4]"]
  note thm3 = inverse_velocity_refines_spec
    [where d = "[1, 2, 3]" and t = "Some [0]" and ts = "[0]"]
  have len: "5 \<le> length ?d" by simp
  have a: "inverse_velocity ?d (Some ?t) = Inr (spec_inverse_velocity ?d (Some ?t))"
  proof -
    have "case Some ?t of None \<Rightarrow> True
        | Some ts \<Rightarrow> 5 \<le> length ?d \<longrightarrow> length (spec_last10 ts) = length (spec_last10 ?d)"
      using win by simp
    with thm1 show ?thesis by blast
  qed
  have b: "inverse_velocity ?d (Some ?t) = Inr (Finite (2/21))"
  proof -
    have "5 \<le> length ?d \<and> length (spec_last10 ?t) = length (spec_last10 ?d)
        \<and> last_step ?t \<noteq> 0 \<and> \<bar>last_step ?d\<bar> < float_overflow
        \<and> \<bar>last_step ?t\<bar> < float_overflow \<and> \<bar>last_step ?d / last_step ?t\<bar> < float_overflow"
      using sd st small win by simp
    with thm1 have "inverse_velocity ?d (Some ?t)
        = Inr (Finite (if \<bar>last_step ?d / last_step ?t\<bar> < 1/10000 then 99
                       else 1 / \<bar>last_step ?d / last_step ?t\<bar>))"
      by blast
    then show ?thesis by (simp only: val)
  qed
  have c: "inverse_velocity [1, 2, 3, 4, 5, 6] (Some [0, 1, 2, 3, 4]) = Inl ValueError"
  proof -
    have "5 \<le> length [1, 2, 3, 4, 5, 6 :: real]
        \<and> length (spec_last10 [0, 1, 2, 3, 4 :: real]) \<noteq> length (spec_last10 [1, 2, 3, 4, 5, 6 :: real])"
      using mis by simp
    with thm2 show ?thesis by blast
  qed
  have d: "inverse_velocity [1, 2, 3] (Some [0]) = Inr (Finite 999)"
  proof -
    have "length [1, 2, 3 :: real] < 5" by simp
    with thm3 show ?thesis by blast
  qed
  have nz: "last_step ?t \<noteq> 0" using st by simp
  have short: "length [1, 2, 3 :: real] < 5" by simp
  from len win nz a b mis c short d show ?thesis
    by (intro conjI)
qed




section \<open>The generated time axis and columns\<close>

lemma np_linspace_values:
  assumes "0 \<le> num"
  shows "np_linspace a b num = Inr (linspace_values a b (nat num))"
proof -
  let ?n = "nat num"
  consider "?n = 0" | "?n = 1" | "2 \<le> ?n" by linarith
  then show ?thesis
  proof cases
    case 1
    then show ?thesis using assms by (simp add: np_linspace_def linspace_values_def)
  next
    case 2
    then show ?thesis using assms by (simp add: np_linspace_def linspace_values_def)
  next
    case 3
    have "(map (\<lambda>i. real i * ((b - a) / real (?n - 1)) + a) [0..<?n])[?n - 1 := b]
        = map (\<lambda>i. a + real i * (b - a) / real (?n - 1)) [0..<?n]"
      using 3 by (auto simp: list_eq_iff_nth_eq nth_list_update)
    then show ?thesis
      using 3 assms by (simp add: np_linspace_def linspace_values_def Let_def)
  qed
qed

lemma length_linspace_values [simp]: "length (linspace_values a b n) = n"
  by (simp add: linspace_values_def)

lemma linspace_values_nth:
  "i < n \<Longrightarrow> linspace_values a b n ! i = a + real i * (b - a) / real (n - 1)"
  by (simp add: linspace_values_def)

lemma linspace_values_strict:
  assumes "a < b"
  shows "sorted_wrt (<) (linspace_values a b n)"
proof -
  have "linspace_values a b n ! i < linspace_values a b n ! j" if "i < j" "j < n" for i j
  proof -
    have n1: "0 < real (n - 1)" using that by simp
    have "real i * (b - a) < real j * (b - a)"
      using that assms by simp
    then have "real i * (b - a) / real (n - 1) < real j * (b - a) / real (n - 1)"
      using n1 by (simp add: divide_strict_right_mono)
    then show ?thesis using that by (simp add: linspace_values_nth)
  qed
  then show ?thesis by (simp add: sorted_wrt_iff_nth_less)
qed

lemma linspace_values_first: "0 < n \<Longrightarrow> linspace_values a b n ! 0 = a"
  by (simp add: linspace_values_nth)

lemma linspace_values_last: "2 \<le> n \<Longrightarrow> linspace_values a b n ! (n - 1) = b"
  by (simp add: linspace_values_nth)

lemma linspace_values_range:
  assumes "a \<le> b" and "i < n"
  shows "a \<le> linspace_values a b n ! i" and "linspace_values a b n ! i \<le> b"
proof -
  have i: "real i \<le> real (n - 1)" using assms(2) by simp
  have ba: "0 \<le> b - a" using assms(1) by simp
  have q0: "0 \<le> real i * (b - a) / real (n - 1)"
    using ba by simp
  have q1: "real i * (b - a) / real (n - 1) \<le> b - a"
  proof (cases "n - 1 = 0")
    case True
    then show ?thesis using ba by simp
  next
    case False
    then have pos: "0 < real (n - 1)" by simp
    have "real i * (b - a) \<le> real (n - 1) * (b - a)"
      using i ba by (rule mult_right_mono)
    then have "real i * (b - a) \<le> (b - a) * real (n - 1)"
      by (simp only: mult.commute)
    then show ?thesis
      using pos by (simp only: pos_divide_le_eq)
  qed
  show "a \<le> linspace_values a b n ! i" using q0 assms(2) by (simp add: linspace_values_nth)
  show "linspace_values a b n ! i \<le> b" using q1 assms(2) by (simp add: linspace_values_nth)
qed

lemma length_masked_assign [simp]: "length (masked_assign ts ms vs) = length ts"
  by (induction ts ms vs rule: masked_assign.induct) (auto split: list.splits)

lemma monsoon_lengths:
  assumes "length time_hrs = rows"
  shows "length (pressure (generate_monsoon_scenario nz time_hrs rows)) = rows"
    and "length (acoustic (generate_monsoon_scenario nz time_hrs rows)) = rows"
    and "length (displacement (generate_monsoon_scenario nz time_hrs rows)) = rows"
    and "length (intensity (generate_monsoon_scenario nz time_hrs rows)) = rows"
  using assms by (simp_all add: generate_monsoon_scenario_def Let_def np_random_normal_def)

lemma seismic_lengths:
  assumes "length time_hrs = rows"
  shows "length (pressure (generate_seismic_scenario nz time_hrs rows)) = rows"
    and "length (acoustic (generate_seismic_scenario nz time_hrs rows)) = rows"
    and "length (displacement (generate_seismic_scenario nz time_hrs rows)) = rows"
    and "length (intensity (generate_seismic_scenario nz time_hrs rows)) = rows"
  using assms by (simp_all add: generate_seismic_scenario_def Let_def np_random_normal_def)

lemma stable_lengths:
  assumes "length time_hrs = rows"
  shows "\<exists>data. generate_stable_scenario nz time_hrs rows = Inr data
    \<and> length (pressure data) = rows \<and> length (acoustic data) = rows
    \<and> length (displacement data) = rows \<and> length (intensity data) = rows"
  using assms
  by (simp add: generate_stable_scenario_def Let_def np_random_normal_def np_linspace_values)

lemma map_nth_upto: "length xs = n \<Longrightarrow> map (\<lambda>i. xs ! i) [0..<n] = xs"
  using map_nth [of xs] by auto

lemma pd_DataFrame_ok:
  assumes "length lith = length time" "length rqd = length time" "length pres = length time"
    "length acou = length time" "length disp = length time" "length inten = length time"
  shows "\<exists>df. pd_DataFrame time lith rqd pres acou disp inten = Inr df
    \<and> length df = length time \<and> map Time_Hrs df = time
    \<and> map Pore_Water_Pressure_kPa df = pres \<and> map Displacement_mm df = disp"
  using assms by (simp add: pd_DataFrame_def Let_def o_def map_nth_upto)

lemma scenario_dispatch_ok:
  assumes "length time_hrs = rows"
  shows "\<exists>data. (if scenario = ''monsoon'' then Inr (generate_monsoon_scenario nz time_hrs rows)
                  else if scenario = ''seismic'' then Inr (generate_seismic_scenario nz time_hrs rows)
                  else generate_stable_scenario nz time_hrs rows) = Inr data
    \<and> length (pressure data) = rows \<and> length (acoustic data) = rows
    \<and> length (displacement data) = rows \<and> length (intensity data) = rows"
proof (cases "scenario = ''monsoon''")
  case True
  then show ?thesis using monsoon_lengths [OF assms] by simp
next
  case False
  show ?thesis
  proof (cases "scenario = ''seismic''")
    case True
    then show ?thesis using False seismic_lengths [OF assms] by simp
  next
    case nos: False
    show ?thesis using False nos stable_lengths [OF assms] by simp
  qed
qed

lemma generate_gsi_dataset_unfold:
  assumes "0 \<le> rows"
  shows "generate_gsi_dataset nz rows scenario =
    (case (if scenario = ''monsoon''
           then Inr (generate_monsoon_scenario nz (linspace_values 0 24 (nat rows)) (nat rows))
           else if scenario = ''seismic''
           then Inr (generate_seismic_scenario nz (linspace_values 0 24 (nat rows)) (nat rows))
           else generate_stable_scenario nz (linspace_values 0 24 (nat rows)) (nat rows)) of
       Inl e \<Rightarrow> Inl e
     | Inr data \<Rightarrow>
         pd_DataFrame (linspace_values 0 24 (nat rows))
           (replicate (nat rows) ''Quartzite (Fractured)'')
           (np_random_randint (rqd_noise nz) 40 50 (nat rows))
           (pressure data) (acoustic data) (displacement data) (intensity data))"
  unfolding generate_gsi_dataset_def np_linspace_values [OF assms] Let_def by simp

lemma generate_gsi_dataset_ok:
  assumes "0 \<le> rows"
  shows "\<exists>df. generate_gsi_dataset nz rows scenario = Inr df \<and> length df = nat rows
    \<and> map Time_Hrs df = linspace_values 0 24 (nat rows)"
proof -
  let ?t = "linspace_values 0 24 (nat rows)"
  have lt: "length ?t = nat rows" by simp
  obtain data where gen: "(if scenario = ''monsoon'' then Inr (generate_monsoon_scenario nz ?t (nat rows))
                  else if scenario = ''seismic'' then Inr (generate_seismic_scenario nz ?t (nat rows))
                  else generate_stable_scenario nz ?t (nat rows)) = Inr data"
    and len: "length (pressure data) = nat rows" "length (acoustic data) = nat rows"
      "length (displacement data) = nat rows" "length (intensity data) = nat rows"
    using scenario_dispatch_ok [OF lt] by blast
  have "\<exists>df. pd_DataFrame ?t (replicate (nat rows) ''Quartzite (Fractured)'')
        (np_random_randint (rqd_noise nz) 40 50 (nat rows)) (pressure data) (acoustic data)
        (displacement data) (intensity data) = Inr df
      \<and> length df = length ?t \<and> map Time_Hrs df = ?t
      \<and> map Pore_Water_Pressure_kPa df = pressure data \<and> map Displacement_mm df = displacement data"
    using len by (intro pd_DataFrame_ok) (simp_all add: np_random_randint_def)
  then obtain df where "pd_DataFrame ?t (replicate (nat rows) ''Quartzite (Fractured)'')
        (np_random_randint (rqd_noise nz) 40 50 (nat rows)) (pressure data) (acoustic data)
        (displacement data) (intensity data) = Inr df"
      and "length df = nat rows" and "map Time_Hrs df = ?t"
    by auto
  then show ?thesis
    unfolding generate_gsi_dataset_unfold [OF assms] gen by simp
qed

section \<open>Bounds on the exponential and the logistic curve\<close>

lemma exp_sixteenth: "545/512 \<le> exp (1/16 :: real)"
  using exp_lower_Taylor_quadratic [of "1/16 :: real"] by (simp add: power2_eq_square)

lemma exp_3_lower: "2004/100 < exp (3::real)"
proof -
  have "(2004/100 :: real) < (545/512)^48"
    by (simp add: power_divide)
  also have "\<dots> \<le> exp (1/16) ^ 48"
    using exp_sixteenth by (intro power_mono) simp_all
  also have "\<dots> = exp (3::real)"
    using exp_of_nat_mult [of 48 "1/16 :: real"] by simp
  finally show ?thesis .
qed

lemma exp_1_upper: "exp (1::real) < 27184/10000"
proof -
  obtain t :: real where t: "\<bar>t\<bar> \<le> \<bar>1\<bar>"
    and e: "exp (1::real) = (\<Sum>m<8. 1 ^ m / fact m) + (exp t / fact 8) * 1 ^ 8"
    using Maclaurin_exp_le [of "1::real" 8] by blast
  have "exp t \<le> exp 1"
    using t by simp
  also have "\<dots> \<le> 3"
    by (rule exp_le)
  finally have "exp t / 40320 \<le> 3 / (40320::real)"
    by (simp add: divide_right_mono)
  then have b: "exp t / fact 8 \<le> 3 / (40320::real)"
    unfolding fact8 .
  have s: "(\<Sum>m<8. 1 ^ m / fact m) = (685/252 :: real)"
    by (simp add: lessThan_nat_numeral fact_numeral)
  have e': "exp (1::real) = (\<Sum>m<8. 1 ^ m / fact m) + exp t / fact 8"
    using e by simp
  have "exp (1::real) \<le> 685/252 + 3/40320"
    using b unfolding e' s by linarith
  then show ?thesis by simp
qed

lemma exp_3_upper: "exp (3::real) < 2009/100"
proof -
  have "exp (3::real) = exp 1 ^ 3"
    using exp_of_nat_mult [of 3 "1 :: real"] by simp
  also have "\<dots> < (27184/10000) ^ 3"
    using exp_1_upper by (intro power_strict_mono) simp_all
  also have "\<dots> < (2009/100 :: real)"
    by (simp add: power_divide)
  finally show ?thesis .
qed

lemma exp_9_lower: "7900 < exp (9::real)"
proof -
  have "(7900 :: real) < (2004/100)^3"
    by (simp add: power_divide)
  also have "\<dots> < exp 3 ^ 3"
    using exp_3_lower by (intro power_strict_mono) simp_all
  also have "\<dots> = exp (9::real)"
    using exp_of_nat_mult [of 3 "3 :: real"] by simp
  finally show ?thesis .
qed

lemma spec_monsoon_pressure_0: "20 < spec_monsoon_pressure 0" "spec_monsoon_pressure 0 < 2001/100"
proof -
  have eq: "spec_monsoon_pressure 0 = 20 + 65 / (1 + exp 9)"
    by (simp add: spec_monsoon_pressure_def)
  show "20 < spec_monsoon_pressure 0"
    unfolding eq by (simp add: add_pos_pos)
  have "65 / (1 + exp (9::real)) < 65 / 7900"
    using exp_9_lower by (intro divide_strict_left_mono) (simp_all add: add_pos_pos)
  then show "spec_monsoon_pressure 0 < 2001/100"
    unfolding eq by simp
qed

lemma spec_monsoon_pressure_24: "8191/100 < spec_monsoon_pressure 24" "spec_monsoon_pressure 24 < 8192/100"
proof -
  have eq: "spec_monsoon_pressure 24 = 20 + 65 / (1 + 1 / exp 3)"
    by (simp add: spec_monsoon_pressure_def exp_minus inverse_eq_divide)
  have lo: "1 / exp (3::real) < 100/2004"
    using exp_3_lower by (simp add: divide_simps)
  have hi: "100/2009 < 1 / exp (3::real)"
    using exp_3_upper by (simp add: divide_simps)
  have pos: "0 < 1 + 1 / exp (3::real)"
    by (simp add: add_pos_pos)
  have "65 / (1 + 100/2004) < 65 / (1 + 1 / exp (3::real))"
    using lo pos by (intro divide_strict_left_mono) simp_all
  then show "8191/100 < spec_monsoon_pressure 24"
    unfolding eq by simp
  have "65 / (1 + 1 / exp (3::real)) < 65 / (1 + 100/2009)"
    using hi by (intro divide_strict_left_mono) simp_all
  then show "spec_monsoon_pressure 24 < 8192/100"
    unfolding eq by simp
qed

section \<open>The scenario generator\<close>

lemma monsoon_pressure_column:
  "pressure (generate_monsoon_scenario nz time_hrs rows) = map spec_monsoon_pressure time_hrs"
  by (simp add: generate_monsoon_scenario_def Let_def spec_monsoon_pressure_def)

lemma generate_monsoon_dataset:
  assumes "0 \<le> N"
  shows "\<exists>df. generate_gsi_dataset nz N ''monsoon'' = Inr df \<and> length df = nat N
    \<and> map Time_Hrs df = linspace_values 0 24 (nat N)
    \<and> map Pore_Water_Pressure_kPa df = map (\<lambda>r. spec_monsoon_pressure (Time_Hrs r)) df"
proof -
  let ?t = "linspace_values 0 24 (nat N)"
  let ?data = "generate_monsoon_scenario nz ?t (nat N)"
  have lt: "length ?t = nat N" by simp
  have "\<exists>df. pd_DataFrame ?t (replicate (nat N) ''Quartzite (Fractured)'')
        (np_random_randint (rqd_noise nz) 40 50 (nat N)) (pressure ?data) (acoustic ?data)
        (displacement ?data) (intensity ?data) = Inr df
      \<and> length df = length ?t \<and> map Time_Hrs df = ?t
      \<and> map Pore_Water_Pressure_kPa df = pressure ?data \<and> map Displacement_mm df = displacement ?data"
    using monsoon_lengths [OF lt, of nz]
    by (intro pd_DataFrame_ok) (simp_all add: np_random_randint_def)
  then obtain df where df: "pd_DataFrame ?t (replicate (nat N) ''Quartzite (Fractured)'')
        (np_random_randint (rqd_noise nz) 40 50 (nat N)) (pressure ?data) (acoustic ?data)
        (displacement ?data) (intensity ?data) = Inr df"
      and len: "length df = nat N" and time: "map Time_Hrs df = ?t"
      and pres: "map Pore_Water_Pressure_kPa df = pressure ?data"
    by auto
  have "map Pore_Water_Pressure_kPa df = map spec_monsoon_pressure (map Time_Hrs df)"
    unfolding pres time by (rule monsoon_pressure_column)
  then have "map Pore_Water_Pressure_kPa df = map (\<lambda>r. spec_monsoon_pressure (Time_Hrs r)) df"
    by (simp add: o_def)
  with df len time show ?thesis
    unfolding generate_gsi_dataset_unfold [OF assms] by simp
qed

lemma generate_negative: "N < 0 \<Longrightarrow> generate_gsi_dataset nz N scenario = Inl ValueError"
  by (simp add: generate_gsi_dataset_def np_linspace_def)

lemma linspace_values_nonempty: "0 < n \<Longrightarrow> linspace_values a b n \<noteq> []"
  by (simp add: linspace_values_def)

lemma linspace_values_hd: "0 < n \<Longrightarrow> hd (linspace_values a b n) = a"
  using linspace_values_first [of n a b] linspace_values_nonempty [of n a b]
  by (simp add: hd_conv_nth)

lemma linspace_values_last': "2 \<le> n \<Longrightarrow> last (linspace_values a b n) = b"
  using linspace_values_last [of n a b] linspace_values_nonempty [of n a b]
  by (simp add: last_conv_nth)

lemma time_of_hd:
  assumes "map Time_Hrs df = linspace_values 0 24 n" and "0 < n"
  shows "Time_Hrs (hd df) = 0"
proof -
  have ne: "df \<noteq> []"
    using assms linspace_values_nonempty [of n 0 24] by auto
  have "Time_Hrs (hd df) = hd (map Time_Hrs df)"
    using ne by (simp add: hd_map)
  then show ?thesis
    using assms by (simp add: linspace_values_hd)
qed

lemma time_of_last:
  assumes "map Time_Hrs df = linspace_values 0 24 n" and "2 \<le> n"
  shows "Time_Hrs (last df) = 24"
proof -
  have ne: "df \<noteq> []"
    using assms linspace_values_nonempty [of n 0 24] by auto
  have "Time_Hrs (last df) = last (map Time_Hrs df)"
    using ne by (simp add: last_map)
  then show ?thesis
    using assms by (simp add: linspace_values_last')
qed

text \<open>
  C6, amended. For every count \<open>N \<ge> 0\<close> and every scenario (monsoon, seismic, and stable
  for any other name), \<open>generate_gsi_dataset\<close> returns exactly \<open>N\<close> rows whose
  \<open>Time_Hrs\<close> values are strictly increasing and lie in \<open>[0, 24]\<close>; the first value is 0
  when \<open>N \<ge> 1\<close> and the last value is 24 when \<open>N \<ge> 2\<close>.
\<close>

theorem generate_gsi_dataset_time_axis:
  assumes "0 \<le> N"
  shows "\<exists>df. generate_gsi_dataset nz N scenario = Inr df \<and> int (length df) = N
     \<and> sorted_wrt (<) (map Time_Hrs df)
     \<and> (\<forall>r \<in> set df. 0 \<le> Time_Hrs r \<and> Time_Hrs r \<le> 24)
     \<and> (1 \<le> N \<longrightarrow> Time_Hrs (hd df) = 0)
     \<and> (2 \<le> N \<longrightarrow> Time_Hrs (last df) = 24)"
proof -
  obtain df where df: "generate_gsi_dataset nz N scenario = Inr df"
    and len: "length df = nat N" and time: "map Time_Hrs df = linspace_values 0 24 (nat N)"
    using generate_gsi_dataset_ok [OF assms] by blast
  have sorted: "sorted_wrt (<) (map Time_Hrs df)"
    unfolding time by (rule linspace_values_strict) simp
  have range: "0 \<le> Time_Hrs r \<and> Time_Hrs r \<le> 24" if "r \<in> set df" for r
  proof -
    from that obtain i where i: "i < length df" and r: "r = df ! i"
      by (auto simp: in_set_conv_nth)
    have "Time_Hrs r = map Time_Hrs df ! i"
      using i r by simp
    then have "Time_Hrs r = linspace_values 0 24 (nat N) ! i"
      by (simp only: time)
    then show ?thesis
      using linspace_values_range [of 0 24 i "nat N"] i len by simp
  qed
  have first: "Time_Hrs (hd df) = 0" if "1 \<le> N"
    using time that by (intro time_of_hd [of df "nat N"]) simp_all
  have final: "Time_Hrs (last df) = 24" if "2 \<le> N"
    using time that by (intro time_of_last [of df "nat N"]) simp_all
  show ?thesis
    using df len assms sorted range first final by auto
qed

theorem generate_gsi_dataset_time_axis_witness:
  "(0::int) \<le> 3 \<and> (1::int) \<le> 3 \<and> (2::int) \<le> 3
   \<and> (\<exists>df. generate_gsi_dataset quiet_noise 3 ''seismic'' = Inr df \<and> df \<noteq> [] \<and> length df = 3
        \<and> sorted_wrt (<) (map Time_Hrs df)
        \<and> (\<forall>r \<in> set df. 0 \<le> Time_Hrs r \<and> Time_Hrs r \<le> 24)
        \<and> Time_Hrs (hd df) = 0 \<and> Time_Hrs (last df) = 24)"
proof -
  have "(0::int) \<le> 3" by simp
  from generate_gsi_dataset_time_axis [OF this, of quiet_noise "''seismic''"]
  show ?thesis by auto
qed

text \<open>
  C6 as stated fails for \<open>N = 1\<close>: \<open>np.linspace(0, 24, 1)\<close> is the single value 0, so the
  last time value is 0 and not 24.
\<close>

theorem generate_single_point_counterexample:
  "map_sum id (map Time_Hrs) (generate_gsi_dataset quiet_noise 1 ''monsoon'') = Inr [0]
   \<and> last [0 :: real] \<noteq> 24"
proof -
  obtain df where "generate_gsi_dataset quiet_noise 1 ''monsoon'' = Inr df"
    and "map Time_Hrs df = linspace_values 0 24 (nat 1)"
    using generate_gsi_dataset_ok [of 1 quiet_noise "''monsoon''"] by auto
  then show ?thesis
    by (simp add: linspace_values_def)
qed

text \<open>
  C7, amended. The monsoon pore pressure at time \<open>t\<close> is the logistic curve
  \<open>20 + 65 * (1 / (1 + exp(-0.5 * (t - 18))))\<close>, in the scenario function and in every row
  of the generated table. At hour 0 it lies between 20 and 20.01 kPa; at hour 24 it lies
  between 81.91 and 81.92 kPa (85 kPa is the limit of the curve, not its value at the end
  of the 24 hour series).
\<close>

theorem monsoon_pressure_logistic:
  "pressure (generate_monsoon_scenario nz time_hrs rows) = map spec_monsoon_pressure time_hrs
   \<and> map_sum id (map Pore_Water_Pressure_kPa) (generate_gsi_dataset nz N ''monsoon'')
       = map_sum id (map (\<lambda>r. spec_monsoon_pressure (Time_Hrs r)))
           (generate_gsi_dataset nz N ''monsoon'')
   \<and> 20 < spec_monsoon_pressure 0 \<and> spec_monsoon_pressure 0 < 2001/100
   \<and> 8191/100 < spec_monsoon_pressure 24 \<and> spec_monsoon_pressure 24 < 8192/100
   \<and> (2 \<le> N \<longrightarrow>
        (\<exists>df. generate_gsi_dataset nz N ''monsoon'' = Inr df
           \<and> Time_Hrs (hd df) = 0 \<and> Time_Hrs (last df) = 24
           \<and> Pore_Water_Pressure_kPa (hd df) = spec_monsoon_pressure 0
           \<and> Pore_Water_Pressure_kPa (last df) = spec_monsoon_pressure 24))"
proof (intro conjI impI)
  show "pressure (generate_monsoon_scenario nz time_hrs rows) = map spec_monsoon_pressure time_hrs"
    by (rule monsoon_pressure_column)
  show "map_sum id (map Pore_Water_Pressure_kPa) (generate_gsi_dataset nz N ''monsoon'')
       = map_sum id (map (\<lambda>r. spec_monsoon_pressure (Time_Hrs r)))
           (generate_gsi_dataset nz N ''monsoon'')"
  proof (cases "0 \<le> N")
    case True
    then show ?thesis using generate_monsoon_dataset [OF True, of nz] by auto
  next
    case False
    then show ?thesis by (simp add: generate_negative)
  qed
  show "20 < spec_monsoon_pressure 0" "spec_monsoon_pressure 0 < 2001/100"
    "8191/100 < spec_monsoon_pressure 24" "spec_monsoon_pressure 24 < 8192/100"
    by (rule spec_monsoon_pressure_0 spec_monsoon_pressure_24)+
next
  assume N: "2 \<le> N"
  then have N0: "0 \<le> N" by simp
  obtain df where df: "generate_gsi_dataset nz N ''monsoon'' = Inr df"
    and len: "length df = nat N" and time: "map Time_Hrs df = linspace_values 0 24 (nat N)"
    and pres: "map Pore_Water_Pressure_kPa df = map (\<lambda>r. spec_monsoon_pressure (Time_Hrs r)) df"
    using generate_monsoon_dataset [OF N0, of nz] by blast
  have ne: "df \<noteq> []" using N len by auto
  have t0: "Time_Hrs (hd df) = 0"
    using time N by (intro time_of_hd [of df "nat N"]) simp_all
  have t24: "Time_Hrs (last df) = 24"
    using time N by (intro time_of_last [of df "nat N"]) simp_all
  have "Pore_Water_Pressure_kPa (hd df) = hd (map Pore_Water_Pressure_kPa df)"
    using ne by (simp add: hd_map)
  then have p0: "Pore_Water_Pressure_kPa (hd df) = spec_monsoon_pressure 0"
    unfolding pres using ne t0 by (simp add: hd_map)
  have "Pore_Water_Pressure_kPa (last df) = last (map Pore_Water_Pressure_kPa df)"
    using ne by (simp add: last_map)
  then have p24: "Pore_Water_Pressure_kPa (last df) = spec_monsoon_pressure 24"
    unfolding pres using ne t24 by (simp add: last_map)
  show "\<exists>df. generate_gsi_dataset nz N ''monsoon'' = Inr df
           \<and> Time_Hrs (hd df) = 0 \<and> Time_Hrs (last df) = 24
           \<and> Pore_Water_Pressure_kPa (hd df) = spec_monsoon_pressure 0
           \<and> Pore_Water_Pressure_kPa (last df) = spec_monsoon_pressure 24"
    using df t0 t24 p0 p24 by blast
qed

theorem monsoon_pressure_logistic_witness:
  "(2::int) \<le> 2
   \<and> (\<exists>df. generate_gsi_dataset quiet_noise 2 ''monsoon'' = Inr df
        \<and> Time_Hrs (last df) = 24
        \<and> 8191/100 < Pore_Water_Pressure_kPa (last df)
        \<and> Pore_Water_Pressure_kPa (last df) < 8192/100)"
  using monsoon_pressure_logistic [of quiet_noise "[]" 0 2] by auto

text \<open>
  C7 as stated fails at hour 24: the generated pressure there is more than 3 kPa below 85.
\<close>

theorem monsoon_hour_24_counterexample:
  "\<not> \<bar>last (pressure (generate_monsoon_scenario quiet_noise [0, 24] 2)) - 85\<bar> < 3"
proof -
  have "last (pressure (generate_monsoon_scenario quiet_noise [0, 24] 2)) = spec_monsoon_pressure 24"
    by (simp add: monsoon_pressure_column)
  then show ?thesis
    using spec_monsoon_pressure_24 by simp
qed

section \<open>The risk classifier\<close>

lemma predict_risk_unloaded:
  "\<not> model_loaded self \<Longrightarrow> predict_risk env self pres disp = Inr (''Model Not Loaded'', 0)"
  by (simp add: predict_risk_def)

lemma predict_risk_body_raises:
  assumes "model self = Some m"
    and "predict m pres disp = Inl e \<or> predict_proba m pres disp = Inl e"
  shows "\<exists>e'. predict_risk_body env self pres disp = Inl e'"
  using assms
  by (auto simp: predict_risk_body_def split: sum.splits list.splits)

lemma predict_risk_caught:
  assumes "model_loaded self" and "predict_risk_body env self pres disp = Inl e"
  shows "predict_risk env self pres disp =
      (case stdout_write env (warning_sign @ '' Prediction error: '' @ error_text env e) of
         None \<Rightarrow> Inr (''Error'', 0)
       | Some e' \<Rightarrow> Inl e')"
  using assms by (simp add: predict_risk_def py_print_def split: option.splits)

lemma risk_call_returns_unloaded:
  "\<not> model_loaded ml \<Longrightarrow> risk_call_returns env ml rows"
  by (simp add: risk_call_returns_def predict_risk_unloaded list_all_iff)

lemma predict_risk_quiet:
  assumes "\<And>msg. stdout_write env msg = None"
  shows "\<exists>label prob. predict_risk env self pres disp = Inr (label, prob)"
  by (cases "predict_risk_body env self pres disp")
     (auto simp: predict_risk_def py_print_def assms)

lemma risk_call_returns_quiet:
  assumes "\<And>msg. stdout_write env msg = None"
  shows "risk_call_returns env ml rows"
proof -
  have "case predict_risk env ml (Pore_Water_Pressure_kPa r) (Displacement_mm r) of
      Inl _ \<Rightarrow> False | Inr _ \<Rightarrow> True" for r :: gsi_row
    using predict_risk_quiet [OF assms, of ml "Pore_Water_Pressure_kPa r" "Displacement_mm r"]
    by auto
  then show ?thesis
    by (simp add: risk_call_returns_def list_all_iff)
qed

lemma risk_call_returns_row:
  assumes "risk_call_returns env ml rows" and "r \<in> set rows"
  shows "\<exists>label prob. predict_risk env ml (Pore_Water_Pressure_kPa r) (Displacement_mm r)
      = Inr (label, prob)"
proof -
  from assms have "case predict_risk env ml (Pore_Water_Pressure_kPa r) (Displacement_mm r) of
      Inl _ \<Rightarrow> False | Inr _ \<Rightarrow> True"
    by (simp add: risk_call_returns_def list_all_iff)
  then show ?thesis
    by (cases "predict_risk env ml (Pore_Water_Pressure_kPa r) (Displacement_mm r)") auto
qed

lemma warning_sign_not_ascii:
  "stdout_write ascii_env (warning_sign @ msg) = Some UnicodeEncodeError"
  by (simp add: ascii_env_def warning_sign_def)

text \<open>
  C9 fails. Take an engine constructed with a model on disk whose \<open>predict\<close> raises
  RuntimeError, and call \<open>predict_risk\<close> while the standard output takes ASCII only. The
  exception of the model is caught, but the \<^verbatim>\<open>print\<close> of the handler, whose text
  starts with the warning sign, raises UnicodeEncodeError, and that exception leaves
  \<open>predict_risk\<close>: ("Error", 0.0) is not returned. On a standard output that takes every
  text the same call returns ("Error", 0.0). The constructor raises in the same way when
  no artifact is on disk, and an engine without a model answers ("Model Not Loaded", 0.0)
  without printing.
\<close>

theorem predict_risk_handler_print_raises:
  "LithosML_init loading_env ''models/seismic_classifier.pkl'' = Inr failing_engine
   \<and> model_loaded failing_engine
   \<and> predict failing_classifier 85 6 = Inl RuntimeError
   \<and> predict_risk_body ascii_env failing_engine 85 6 = Inl RuntimeError
   \<and> stdout_write ascii_env
        (warning_sign @ '' Prediction error: '' @ error_text ascii_env RuntimeError)
       = Some UnicodeEncodeError
   \<and> predict_risk ascii_env failing_engine 85 6 = Inl UnicodeEncodeError
   \<and> predict_risk bare_env failing_engine 85 6 = Inr (''Error'', 0)
   \<and> LithosML_init ascii_env ''models/seismic_classifier.pkl'' = Inl UnicodeEncodeError
   \<and> predict_risk ascii_env unloaded_engine 85 6 = Inr (''Model Not Loaded'', 0)"
proof -
  have built: "LithosML_init loading_env ''models/seismic_classifier.pkl'' = Inr failing_engine"
    by (simp add: LithosML_init_def load_model_def load_model_body_def py_print_def
        loading_env_def failing_engine_def)
  have loaded: "model_loaded failing_engine"
    by (simp add: failing_engine_def)
  have raises: "predict failing_classifier 85 6 = Inl RuntimeError"
    by (simp add: failing_classifier_def)
  have body: "predict_risk_body env failing_engine 85 6 = Inl RuntimeError"
    if "pandas_importable env" for env
    using that by (simp add: predict_risk_body_def failing_engine_def failing_classifier_def)
  have body_ascii: "predict_risk_body ascii_env failing_engine 85 6 = Inl RuntimeError"
    by (rule body) (simp add: ascii_env_def)
  have body_bare: "predict_risk_body bare_env failing_engine 85 6 = Inl RuntimeError"
    by (rule body) (simp add: bare_env_def)
  have out: "stdout_write ascii_env
        (warning_sign @ '' Prediction error: '' @ error_text ascii_env RuntimeError)
       = Some UnicodeEncodeError"
    by (rule warning_sign_not_ascii)
  have ascii: "predict_risk ascii_env failing_engine 85 6 = Inl UnicodeEncodeError"
    unfolding predict_risk_caught [OF loaded body_ascii] out by simp
  have bare: "predict_risk bare_env failing_engine 85 6 = Inr (''Error'', 0)"
    unfolding predict_risk_caught [OF loaded body_bare] by (simp add: bare_env_def)
  have missing: "load_model_body ascii_env
        \<lparr>model_path = ''models/seismic_classifier.pkl'', model = None, model_loaded = False\<rparr>
      = (\<lparr>model_path = ''models/seismic_classifier.pkl'', model = None, model_loaded = False\<rparr>,
         Inl UnicodeEncodeError)"
    unfolding load_model_body_def py_print_def warning_sign_not_ascii
    by (simp add: ascii_env_def)
  have init: "LithosML_init ascii_env ''models/seismic_classifier.pkl'' = Inl UnicodeEncodeError"
    unfolding LithosML_init_def load_model_def missing py_print_def warning_sign_not_ascii
    by simp
  have unloaded: "predict_risk ascii_env unloaded_engine 85 6 = Inr (''Model Not Loaded'', 0)"
    by (rule predict_risk_unloaded) (simp add: unloaded_engine_def)
  from built loaded raises body_ascii out ascii bare init unloaded show ?thesis
    by blast
qed

section \<open>One tick of the live stream\<close>

lemma tail_slice_short: "length xs \<le> k \<Longrightarrow> tail_slice k xs = xs"
  by (simp add: tail_slice_def)

lemma tail_slice_append: "tail_slice k (tail_slice k xs @ ys) = tail_slice k (xs @ ys)"
proof (cases "length xs \<le> k")
  case True
  then show ?thesis by (simp add: tail_slice_short)
next
  case False
  then have a: "length xs + length ys - k - (length xs - k) = length ys"
    and b: "length ys + (length xs - k) = length xs + length ys - k"
    and c: "length xs - (length xs - k) = k"
    by arith+
  show ?thesis
    using False by (simp add: tail_slice_def a b c)
qed

lemma tail_slice_push: "tail_slice k (tail_slice k xs @ [x]) = tail_slice k (xs @ [x])"
  by (rule tail_slice_append)

lemma buffer_append_point_keys:
  assumes "buffer_aligned tb"
  shows "buf_time (buffer_append_point r tb) = tail_slice 200 (buf_time tb @ [Time_Hrs r])"
    and "buf_pressure (buffer_append_point r tb)
          = tail_slice 200 (buf_pressure tb @ [Pore_Water_Pressure_kPa r])"
    and "buf_displacement (buffer_append_point r tb)
          = tail_slice 200 (buf_displacement tb @ [Displacement_mm r])"
    and "buf_fos (buffer_append_point r tb) = buf_fos tb
          \<or> buf_fos (buffer_append_point r tb) = tail_slice 200 (buf_fos tb)"
  using assms
  by (simp_all add: buffer_append_point_def buffer_aligned_def Let_def tail_slice_short)

lemma buffer_append_point_aligned:
  "buffer_aligned tb \<Longrightarrow> buffer_aligned (buffer_append_point r tb)"
  by (auto simp: buffer_append_point_def buffer_aligned_def Let_def length_tail_slice)

lemma buffer_append_fos_keys:
  "buf_time (buffer_append_fos f tb) = buf_time tb"
  "buf_pressure (buffer_append_fos f tb) = buf_pressure tb"
  "buf_displacement (buffer_append_fos f tb) = buf_displacement tb"
  "buf_fos (buffer_append_fos f tb) = tail_slice 200 (buf_fos tb @ [f])"
  by (simp_all add: buffer_append_fos_def Let_def tail_slice_short)

lemma buffer_append_fos_aligned:
  "buffer_aligned tb \<Longrightarrow> buffer_aligned (buffer_append_fos f tb)"
  by (simp add: buffer_aligned_def buffer_append_fos_keys length_tail_slice)

lemma buffer_tick_fos:
  assumes "buffer_aligned tb"
  shows "buf_fos (buffer_append_fos f (buffer_append_point r tb)) = tail_slice 200 (buf_fos tb @ [f])"
  using buffer_append_point_keys(4) [OF assms, of r]
  by (auto simp: buffer_append_fos_keys tail_slice_push)

lemma calculate_ttf_paired:
  assumes "length ts = length ds"
  shows "\<exists>x. calculate_ttf ds (Some ts) k = Inr x"
proof (cases "length ds < 5")
  case True
  then show ?thesis by (simp add: calculate_ttf_def inverse_velocity_def)
next
  case False
  then have "2 \<le> length (tail_slice 10 ds)"
    by (simp add: length_tail_slice)
  moreover have "length (tail_slice 10 ts) = length (tail_slice 10 ds)"
    using assms by (simp add: length_tail_slice)
  ultimately show ?thesis
    using False
    by (simp add: calculate_ttf_def inverse_velocity_def np_gradient_last_def Let_def)
qed

lemma stream_tick_total:
  assumes "i < length full_data"
    and "predict_risk env ml (Pore_Water_Pressure_kPa (full_data ! i))
          (Displacement_mm (full_data ! i)) = Inr (ml_risk, ml_prob)"
  shows "\<exists>v. stream_tick env ml clock full_data i s = Inr (tick_state clock full_data i s, v)
    \<and> tick_index v = i \<and> is_critical v = row_critical (full_data ! i)
    \<and> view_time v = Time_Hrs (full_data ! i)
    \<and> view_pressure v = Pore_Water_Pressure_kPa (full_data ! i)
    \<and> view_displacement v = Displacement_mm (full_data ! i)
    \<and> view_fos v = row_fos (full_data ! i)"
proof -
  obtain ttf where ttf: "calculate_ttf (map Displacement_mm (take (i + 1) full_data))
      (Some (map Time_Hrs (take (i + 1) full_data))) (1/2) = Inr ttf"
    using calculate_ttf_paired [of "map Time_Hrs (take (i + 1) full_data)"
        "map Displacement_mm (take (i + 1) full_data)" "1/2"]
    by auto
  show ?thesis
    using assms ttf
    by (simp add: stream_tick_def Let_def row_critical_def row_fos_def tick_state_def)
qed

lemma stream_tick_raises:
  assumes "predict_risk env ml (Pore_Water_Pressure_kPa (full_data ! i))
          (Displacement_mm (full_data ! i)) = Inl e"
  shows "\<exists>e'. stream_tick env ml clock full_data i s = Inl e'"
proof (cases "i < length full_data")
  case False
  then show ?thesis by (simp add: stream_tick_def)
next
  case True
  obtain ttf where ttf: "calculate_ttf (map Displacement_mm (take (i + 1) full_data))
      (Some (map Time_Hrs (take (i + 1) full_data))) (1/2) = Inr ttf"
    using calculate_ttf_paired [of "map Time_Hrs (take (i + 1) full_data)"
        "map Displacement_mm (take (i + 1) full_data)" "1/2"]
    by auto
  show ?thesis
    using True assms ttf by (simp add: stream_tick_def Let_def)
qed

lemma stream_tick_effect:
  assumes "stream_tick env ml clock full_data i s = Inr (s', v)"
  shows "i < length full_data"
    and "s' = tick_state clock full_data i s"
    and "tick_index v = i"
    and "is_critical v = row_critical (full_data ! i)"
    and "view_time v = Time_Hrs (full_data ! i)"
    and "view_pressure v = Pore_Water_Pressure_kPa (full_data ! i)"
    and "view_displacement v = Displacement_mm (full_data ! i)"
    and "view_fos v = row_fos (full_data ! i)"
proof -
  show i: "i < length full_data"
    using assms by (cases "i < length full_data") (simp_all add: stream_tick_def)
  obtain ml_risk ml_prob where ml: "predict_risk env ml (Pore_Water_Pressure_kPa (full_data ! i))
      (Displacement_mm (full_data ! i)) = Inr (ml_risk, ml_prob)"
  proof (cases "predict_risk env ml (Pore_Water_Pressure_kPa (full_data ! i))
      (Displacement_mm (full_data ! i))")
    case (Inl e)
    from stream_tick_raises [OF this, of clock s] assms show ?thesis by auto
  next
    case (Inr p)
    with that show ?thesis by (cases p) auto
  qed
  obtain v' where run: "stream_tick env ml clock full_data i s = Inr (tick_state clock full_data i s, v')"
    and v': "tick_index v' = i" "is_critical v' = row_critical (full_data ! i)"
      "view_time v' = Time_Hrs (full_data ! i)"
      "view_pressure v' = Pore_Water_Pressure_kPa (full_data ! i)"
      "view_displacement v' = Displacement_mm (full_data ! i)"
      "view_fos v' = row_fos (full_data ! i)"
    using stream_tick_total [OF i ml, of clock s] by blast
  from run assms have eq: "s' = tick_state clock full_data i s" "v = v'"
    by simp_all
  show "s' = tick_state clock full_data i s" by (rule eq(1))
  show "tick_index v = i"
    and "is_critical v = row_critical (full_data ! i)"
    and "view_time v = Time_Hrs (full_data ! i)"
    and "view_pressure v = Pore_Water_Pressure_kPa (full_data ! i)"
    and "view_displacement v = Displacement_mm (full_data ! i)"
    and "view_fos v = row_fos (full_data ! i)"
    unfolding eq(2) by (rule v')+
qed

lemma tick_state_log:
  "command_log (tick_state clock fd i s)
     = command_log s @ (if row_critical (fd ! i) \<and> \<not> alarm_already_logged s
                        then stream_alarm_batch (clock i) else [])"
  "alarm_already_logged (tick_state clock fd i s) = (alarm_already_logged s \<or> row_critical (fd ! i))"
  "alarm_triggered (tick_state clock fd i s)
     = (alarm_triggered s \<or> (row_critical (fd ! i) \<and> \<not> alarm_already_logged s))"
  by (auto simp: tick_state_def stream_alarm_latch_def)

lemma stream_alarm_latch_buffer [simp]:
  "telemetry_buffer (stream_alarm_latch ct c s) = telemetry_buffer s"
  by (simp add: stream_alarm_latch_def)

lemma tick_state_buffer:
  assumes "buffer_aligned (telemetry_buffer s)"
  shows "buffer_aligned (telemetry_buffer (tick_state clock fd i s))"
    and "buf_time (telemetry_buffer (tick_state clock fd i s))
          = tail_slice 200 (buf_time (telemetry_buffer s) @ [Time_Hrs (fd ! i)])"
    and "buf_pressure (telemetry_buffer (tick_state clock fd i s))
          = tail_slice 200 (buf_pressure (telemetry_buffer s) @ [Pore_Water_Pressure_kPa (fd ! i)])"
    and "buf_displacement (telemetry_buffer (tick_state clock fd i s))
          = tail_slice 200 (buf_displacement (telemetry_buffer s) @ [Displacement_mm (fd ! i)])"
    and "buf_fos (telemetry_buffer (tick_state clock fd i s))
          = tail_slice 200 (buf_fos (telemetry_buffer s) @ [row_fos (fd ! i)])"
  using assms buffer_append_point_keys(1-3) [OF assms, of "fd ! i"]
    buffer_tick_fos [OF assms, of "row_fos (fd ! i)" "fd ! i"]
  by (simp_all add: tick_state_def buffer_append_fos_keys buffer_append_fos_aligned
      buffer_append_point_aligned)

section \<open>The live stream loop\<close>

lemma stream_loop_ConsE:
  assumes "stream_loop env ml clock fd (i # rest) s = Inr (s', views)"
  obtains (stop) v where "stream_tick env ml clock fd i s = Inr (s', v)"
      and "is_critical v" and "800 < i" and "views = [v]"
  | (continue) s1 v vs where "stream_tick env ml clock fd i s = Inr (s1, v)"
      and "\<not> (is_critical v \<and> 800 < i)"
      and "stream_loop env ml clock fd rest s1 = Inr (s', vs)" and "views = v # vs"
  using assms by (auto split: sum.splits prod.splits if_splits)

lemma stream_loop_total:
  assumes "\<forall>i \<in> set idxs. i < length fd" and "risk_call_returns env ml fd"
  shows "\<exists>s' views. stream_loop env ml clock fd idxs s = Inr (s', views)"
  using assms(1)
proof (induction idxs arbitrary: s)
  case Nil
  then show ?case by simp
next
  case (Cons i rest)
  then have i: "i < length fd" by simp
  then have "fd ! i \<in> set fd" by simp
  from risk_call_returns_row [OF assms(2) this]
  obtain ml_risk ml_prob where ml: "predict_risk env ml (Pore_Water_Pressure_kPa (fd ! i))
      (Displacement_mm (fd ! i)) = Inr (ml_risk, ml_prob)"
    by blast
  obtain v where tick: "stream_tick env ml clock fd i s = Inr (tick_state clock fd i s, v)"
    using stream_tick_total [OF i ml, of clock s] by blast
  obtain s' vs where "stream_loop env ml clock fd rest (tick_state clock fd i s) = Inr (s', vs)"
    using Cons.IH [of "tick_state clock fd i s"] Cons.prems by auto
  with tick show ?case by simp
qed

lemma stream_loop_rows:
  assumes "stream_loop env ml clock fd idxs s = Inr (s', views)" and "v \<in> set views"
  shows "tick_index v \<in> set idxs \<and> tick_index v < length fd
    \<and> is_critical v = row_critical (fd ! tick_index v)
    \<and> view_time v = Time_Hrs (fd ! tick_index v)
    \<and> view_pressure v = Pore_Water_Pressure_kPa (fd ! tick_index v)
    \<and> view_displacement v = Displacement_mm (fd ! tick_index v)
    \<and> view_fos v = row_fos (fd ! tick_index v)"
  using assms
proof (induction idxs arbitrary: s views)
  case Nil
  then show ?case by simp
next
  case (Cons i rest)
  from Cons.prems(1) show ?case
  proof (cases rule: stream_loop_ConsE)
    case (stop w)
    with Cons.prems(2) have "v = w" by simp
    with stream_tick_effect [OF stop(1)] show ?thesis by simp
  next
    case (continue s1 w vs)
    show ?thesis
    proof (cases "v = w")
      case True
      with stream_tick_effect [OF continue(1)] show ?thesis by simp
    next
      case False
      with Cons.prems(2) continue(4) have "v \<in> set vs" by simp
      from Cons.IH [OF continue(3) this] show ?thesis by simp
    qed
  qed
qed

lemma stream_loop_prefix:
  assumes "stream_loop env ml clock fd idxs s = Inr (s', views)"
  shows "map tick_index views = take (length views) idxs"
  using assms
proof (induction idxs arbitrary: s views)
  case Nil
  then show ?case by simp
next
  case (Cons i rest)
  from Cons.prems show ?case
  proof (cases rule: stream_loop_ConsE)
    case (stop w)
    with stream_tick_effect(3) [OF stop(1)] show ?thesis by simp
  next
    case (continue s1 w vs)
    with stream_tick_effect(3) [OF continue(1)] Cons.IH [OF continue(3)]
    show ?thesis by simp
  qed
qed

lemma stream_loop_stops:
  assumes "stream_loop env ml clock fd idxs s = Inr (s', views)"
    and "v \<in> set views" and "is_critical v" and "800 < tick_index v"
  shows "v = last views"
  using assms
proof (induction idxs arbitrary: s views)
  case Nil
  then show ?case by simp
next
  case (Cons i rest)
  from Cons.prems(1) show ?case
  proof (cases rule: stream_loop_ConsE)
    case (stop w)
    with Cons.prems(2) show ?thesis by simp
  next
    case (continue s1 w vs)
    have "v \<noteq> w"
      using continue(2) stream_tick_effect(3) [OF continue(1)] Cons.prems(3,4) by auto
    with Cons.prems(2) continue(4) have mem: "v \<in> set vs" by simp
    then have "vs \<noteq> []" by auto
    with Cons.IH [OF continue(3) mem Cons.prems(3,4)] continue(4)
    show ?thesis by simp
  qed
qed

lemma stream_loop_breaks:
  assumes "stream_loop env ml clock fd idxs s = Inr (s', views)"
    and "\<exists>i \<in> set idxs. row_critical (fd ! i) \<and> 800 < i"
  shows "views \<noteq> [] \<and> is_critical (last views) \<and> 800 < tick_index (last views)"
  using assms
proof (induction idxs arbitrary: s views)
  case Nil
  then show ?case by simp
next
  case (Cons i rest)
  from Cons.prems(1) show ?case
  proof (cases rule: stream_loop_ConsE)
    case (stop w)
    with stream_tick_effect(3) [OF stop(1)] show ?thesis by simp
  next
    case (continue s1 w vs)
    have "\<not> (row_critical (fd ! i) \<and> 800 < i)"
      using continue(2) stream_tick_effect(4) [OF continue(1)] by simp
    with Cons.prems(2) have "\<exists>j \<in> set rest. row_critical (fd ! j) \<and> 800 < j" by auto
    from Cons.IH [OF continue(3) this] continue(4)
    show ?thesis by simp
  qed
qed

lemma stream_loop_complete:
  assumes "stream_loop env ml clock fd idxs s = Inr (s', views)"
    and "\<forall>i \<in> set idxs. \<not> (row_critical (fd ! i) \<and> 800 < i)"
  shows "map tick_index views = idxs"
  using assms
proof (induction idxs arbitrary: s views)
  case Nil
  then show ?case by simp
next
  case (Cons i rest)
  from Cons.prems(1) show ?case
  proof (cases rule: stream_loop_ConsE)
    case (stop w)
    with stream_tick_effect(4) [OF stop(1)] Cons.prems(2) show ?thesis by simp
  next
    case (continue s1 w vs)
    with stream_tick_effect(3) [OF continue(1)] Cons.IH [OF continue(3)] Cons.prems(2)
    show ?thesis by simp
  qed
qed

lemma stream_loop_log:
  assumes "stream_loop env ml clock fd idxs s = Inr (s', views)"
  shows "command_log s' = command_log s @
      (if alarm_already_logged s then []
       else case find is_critical views of
              None \<Rightarrow> []
            | Some v \<Rightarrow> stream_alarm_batch (clock (tick_index v)))"
    and "alarm_already_logged s' = (alarm_already_logged s \<or> (\<exists>v \<in> set views. is_critical v))"
    and "alarm_triggered s'
          = (alarm_triggered s \<or> (\<not> alarm_already_logged s \<and> (\<exists>v \<in> set views. is_critical v)))"
  using assms
proof (induction idxs arbitrary: s views)
  case Nil
  {
    case 1 then show ?case by simp
  next
    case 2 then show ?case by simp
  next
    case 3 then show ?case by simp
  }
next
  case (Cons i rest)
  {
    case 1
    then show ?case
    proof (cases rule: stream_loop_ConsE)
      case (stop w)
      with stream_tick_effect(2,3,4) [OF stop(1)] show ?thesis
        by (simp add: tick_state_log)
    next
      case (continue s1 w vs)
      with stream_tick_effect(2,3,4) [OF continue(1)] Cons.IH(1) [OF continue(3)]
      show ?thesis
        by (simp add: tick_state_log)
    qed
  next
    case 2
    then show ?case
    proof (cases rule: stream_loop_ConsE)
      case (stop w)
      with stream_tick_effect(2,3,4) [OF stop(1)] show ?thesis
        by (simp add: tick_state_log)
    next
      case (continue s1 w vs)
      with stream_tick_effect(2,3,4) [OF continue(1)] Cons.IH(2) [OF continue(3)]
      show ?thesis
        by (auto simp: tick_state_log)
    qed
  next
    case 3
    then show ?case
    proof (cases rule: stream_loop_ConsE)
      case (stop w)
      with stream_tick_effect(2,3,4) [OF stop(1)] show ?thesis
        by (simp add: tick_state_log)
    next
      case (continue s1 w vs)
      with stream_tick_effect(2,3,4) [OF continue(1)] Cons.IH(3) [OF continue(3)]
      show ?thesis
        by (auto simp: tick_state_log)
    qed
  }
qed

lemma stream_loop_buffer:
  assumes "stream_loop env ml clock fd idxs s = Inr (s', views)"
    and "buffer_aligned (telemetry_buffer s)"
  shows "buffer_aligned (telemetry_buffer s')
    \<and> buf_time (telemetry_buffer s')
        = tail_slice 200 (buf_time (telemetry_buffer s) @ map view_time views)
    \<and> buf_pressure (telemetry_buffer s')
        = tail_slice 200 (buf_pressure (telemetry_buffer s) @ map view_pressure views)
    \<and> buf_displacement (telemetry_buffer s')
        = tail_slice 200 (buf_displacement (telemetry_buffer s) @ map view_displacement views)
    \<and> buf_fos (telemetry_buffer s')
        = tail_slice 200 (buf_fos (telemetry_buffer s) @ map view_fos views)"
  using assms
proof (induction idxs arbitrary: s views)
  case Nil
  then show ?case
    by (simp add: buffer_aligned_def tail_slice_short)
next
  case (Cons i rest)
  from Cons.prems(1) show ?case
  proof (cases rule: stream_loop_ConsE)
    case (stop w)
    with stream_tick_effect [OF stop(1)] tick_state_buffer [OF Cons.prems(2), of clock fd i]
    show ?thesis by simp
  next
    case (continue s1 w vs)
    note eff = stream_tick_effect [OF continue(1)]
    note tb = tick_state_buffer [OF Cons.prems(2), of clock fd i]
    have al: "buffer_aligned (telemetry_buffer s1)"
      using eff(2) tb(1) by simp
    from Cons.IH [OF continue(3) al] eff tb continue(4)
    show ?thesis
      by (simp add: tail_slice_append)
  qed
qed

lemma py_range_ok:
  assumes "0 < step"
  shows "\<exists>idxs. py_range stop step = Inr idxs \<and> idxs = map (\<lambda>k. k * step) [0..<(stop + step - 1) div step]
    \<and> (\<forall>i \<in> set idxs. i < stop) \<and> sorted idxs"
proof -
  have "k * step < stop" if "k < (stop + step - 1) div step" for k
  proof -
    from that have "Suc k \<le> (stop + step - 1) div step" by simp
    then have "Suc k * step \<le> stop + step - 1"
      using assms by (simp add: less_eq_div_iff_mult_less_eq)
    then show ?thesis using assms by simp
  qed
  moreover have "sorted (map (\<lambda>k. k * step) [0..<(stop + step - 1) div step])"
    by (auto simp: sorted_iff_nth_mono)
  ultimately show ?thesis
    using assms by (auto simp: py_range_def)
qed

lemma live_stream_total:
  assumes "0 < playback_speed" and "risk_call_returns env ml fd"
  shows "\<exists>s' views. live_stream env ml clock fd playback_speed s = Inr (s', views)"
proof -
  obtain idxs where idxs: "py_range (length fd) playback_speed = Inr idxs"
    and bound: "\<forall>i \<in> set idxs. i < length fd"
    using py_range_ok [OF assms(1), of "length fd"] by blast
  obtain s' views where "stream_loop env ml clock fd idxs s = Inr (s', views)"
    using stream_loop_total [OF bound assms(2)] by blast
  with idxs show ?thesis
    by (simp add: live_stream_def)
qed

lemma live_stream_loop:
  assumes "live_stream env ml clock fd playback_speed s = Inr (s', views)"
  shows "\<exists>idxs. py_range (length fd) playback_speed = Inr idxs
    \<and> stream_loop env ml clock fd idxs s = Inr (s', views) \<and> sorted idxs"
proof (cases "0 < playback_speed")
  case False
  with assms show ?thesis
    by (simp add: live_stream_def py_range_def)
next
  case True
  obtain idxs where idxs: "py_range (length fd) playback_speed = Inr idxs" and sorted: "sorted idxs"
    using py_range_ok [OF True, of "length fd"] by blast
  from assms idxs have "stream_loop env ml clock fd idxs s = Inr (s', views)"
    by (simp add: live_stream_def)
  with idxs sorted show ?thesis by blast
qed

lemma stream_alarm_batch_length [simp]: "length (stream_alarm_batch ct) = 5"
  by (simp add: stream_alarm_batch_def)

lemma live_stream_log:
  assumes "live_stream env ml clock fd playback_speed s = Inr (s', views)"
  shows "command_log s' = command_log s @
      (if alarm_already_logged s then []
       else case find is_critical views of
              None \<Rightarrow> []
            | Some v \<Rightarrow> stream_alarm_batch (clock (tick_index v)))"
    and "alarm_already_logged s' = (alarm_already_logged s \<or> (\<exists>v \<in> set views. is_critical v))"
    and "alarm_triggered s'
          = (alarm_triggered s \<or> (\<not> alarm_already_logged s \<and> (\<exists>v \<in> set views. is_critical v)))"
proof -
  obtain idxs where loop: "stream_loop env ml clock fd idxs s = Inr (s', views)"
    using live_stream_loop [OF assms] by blast
  show "command_log s' = command_log s @
      (if alarm_already_logged s then []
       else case find is_critical views of
              None \<Rightarrow> []
            | Some v \<Rightarrow> stream_alarm_batch (clock (tick_index v)))"
    by (rule stream_loop_log(1) [OF loop])
  show "alarm_already_logged s' = (alarm_already_logged s \<or> (\<exists>v \<in> set views. is_critical v))"
    by (rule stream_loop_log(2) [OF loop])
  show "alarm_triggered s'
          = (alarm_triggered s \<or> (\<not> alarm_already_logged s \<and> (\<exists>v \<in> set views. is_critical v)))"
    by (rule stream_loop_log(3) [OF loop])
qed

lemma live_stream_once:
  assumes "live_stream env ml clock fd playback_speed s = Inr (s', views)"
  shows "\<not> alarm_already_logged s \<Longrightarrow>
      (case find is_critical views of
         None \<Rightarrow> command_log s' = command_log s
       | Some v \<Rightarrow>
           command_log s' = command_log s @ stream_alarm_batch (clock (tick_index v))
           \<and> length (command_log s') = length (command_log s) + 5
           \<and> alarm_triggered s' \<and> alarm_already_logged s')"
    and "alarm_already_logged s \<Longrightarrow> command_log s' = command_log s \<and> alarm_already_logged s'"
proof -
  note log = live_stream_log [OF assms]
  show "case find is_critical views of
         None \<Rightarrow> command_log s' = command_log s
       | Some v \<Rightarrow>
           command_log s' = command_log s @ stream_alarm_batch (clock (tick_index v))
           \<and> length (command_log s') = length (command_log s) + 5
           \<and> alarm_triggered s' \<and> alarm_already_logged s'"
    if "\<not> alarm_already_logged s"
  proof (cases "find is_critical views")
    case None
    with that log(1) show ?thesis by simp
  next
    case (Some v)
    then have "v \<in> set views" "is_critical v"
      by (auto simp: find_Some_iff)
    with that Some log show ?thesis by auto
  qed
  show "command_log s' = command_log s \<and> alarm_already_logged s'" if "alarm_already_logged s"
    using that log by simp
qed

section \<open>Replays and sessions\<close>

lemma inject_spike_length [simp]: "length (inject_spike fd) = length fd"
  by (simp add: inject_spike_def)

lemma tab1_data_ok:
  "\<exists>fd. tab1_data nz scenario s = Inr fd \<and> length fd = 1000"
proof -
  obtain df where "generate_gsi_dataset nz 1000 scenario = Inr df" "length df = nat 1000"
    using generate_gsi_dataset_ok [of 1000 nz scenario] by auto
  then show ?thesis
    by (simp add: tab1_data_def get_dataset_def)
qed

lemma tab1_live_stream_total:
  assumes "0 < playback_speed" and "tab1_data nz scenario s = Inr fd"
    and "risk_call_returns env ml fd"
  shows "\<exists>s' views. tab1_live_stream env ml clock nz scenario playback_speed s = Inr (s', views)"
  using live_stream_total [OF assms(1,3), of clock s] assms(2)
  by (simp add: tab1_live_stream_def)

lemma tab1_live_stream_run:
  assumes "tab1_live_stream env ml clock nz scenario playback_speed s = Inr (s', views)"
  shows "\<exists>fd. tab1_data nz scenario s = Inr fd \<and> length fd = 1000
    \<and> live_stream env ml clock fd playback_speed s = Inr (s', views)"
proof -
  obtain fd where fd: "tab1_data nz scenario s = Inr fd" "length fd = 1000"
    using tab1_data_ok by blast
  with assms show ?thesis
    by (simp add: tab1_live_stream_def)
qed

lemma session_replay_run:
  assumes "session_step env ml nz (LiveStreamRun scenario playback_speed clock) s = Inr s'"
  shows "\<exists>fd views. tab1_data (nz scenario) scenario s = Inr fd \<and> length fd = 1000
    \<and> live_stream env ml clock fd playback_speed s = Inr (s', views)"
proof -
  from assms obtain views
    where "tab1_live_stream env ml clock (nz scenario) scenario playback_speed s = Inr (s', views)"
    by (auto split: sum.splits)
  from tab1_live_stream_run [OF this] show ?thesis by blast
qed

lemma session_replay_log:
  assumes "session_step env ml nz (LiveStreamRun scenario playback_speed clock) s = Inr s'"
  shows "alarm_already_logged s \<Longrightarrow> command_log s' = command_log s \<and> alarm_already_logged s'"
    and "\<not> alarm_already_logged s \<Longrightarrow> alarm_already_logged s' \<Longrightarrow>
          \<exists>ct. command_log s' = command_log s @ stream_alarm_batch ct"
    and "\<not> alarm_already_logged s' \<Longrightarrow> command_log s' = command_log s"
proof -
  obtain fd views where run: "live_stream env ml clock fd playback_speed s = Inr (s', views)"
    using session_replay_run [OF assms] by blast
  note log = live_stream_log [OF run]
  show "command_log s' = command_log s \<and> alarm_already_logged s'" if "alarm_already_logged s"
    using that log by simp
  show "\<exists>ct. command_log s' = command_log s @ stream_alarm_batch ct"
    if "\<not> alarm_already_logged s" and "alarm_already_logged s'"
  proof -
    from that log(2) obtain w where "w \<in> set views" "is_critical w" by auto
    then obtain v where "find is_critical views = Some v"
      by (cases "find is_critical views") (auto simp: find_None_iff)
    with that(1) log(1) show ?thesis by auto
  qed
  show "command_log s' = command_log s" if "\<not> alarm_already_logged s'"
  proof -
    from that log(2) have "\<not> alarm_already_logged s" and none: "\<forall>v \<in> set views. \<not> is_critical v"
      by auto
    from none have "find is_critical views = None"
      by (simp add: find_None_iff)
    with log(1) show ?thesis by simp
  qed
qed

lemma run_session_replays_log:
  assumes "list_all is_replay events" and "run_session env ml nz events s = Inr s'"
  shows "(alarm_already_logged s \<longrightarrow> command_log s' = command_log s \<and> alarm_already_logged s')
    \<and> (\<not> alarm_already_logged s \<and> alarm_already_logged s' \<longrightarrow>
         (\<exists>ct. command_log s' = command_log s @ stream_alarm_batch ct))
    \<and> (\<not> alarm_already_logged s' \<longrightarrow> command_log s' = command_log s)"
  using assms
proof (induction events arbitrary: s)
  case Nil
  then show ?case by simp
next
  case (Cons e es)
  from Cons.prems(1) obtain scenario playback_speed clock
    where e: "e = LiveStreamRun scenario playback_speed clock"
    by (cases e) simp_all
  from Cons.prems(2) obtain s1 where step: "session_step env ml nz e s = Inr s1"
    and rest: "run_session env ml nz es s1 = Inr s'"
    by (auto split: sum.splits)
  note one = session_replay_log [OF step [unfolded e]]
  from Cons.prems(1) have "list_all is_replay es" by simp
  note ih = Cons.IH [OF this rest]
  have a: "command_log s' = command_log s \<and> alarm_already_logged s'" if "alarm_already_logged s"
    using that one(1) ih by simp
  have b: "\<exists>ct. command_log s' = command_log s @ stream_alarm_batch ct"
    if "\<not> alarm_already_logged s \<and> alarm_already_logged s'"
  proof (cases "alarm_already_logged s1")
    case True
    with that one(2) ih show ?thesis by auto
  next
    case False
    with one(3) have "command_log s1 = command_log s" by simp
    with False that ih show ?thesis by auto
  qed
  have c: "command_log s' = command_log s" if "\<not> alarm_already_logged s'"
  proof -
    from that ih have "command_log s' = command_log s1" and "\<not> alarm_already_logged s1"
      by auto
    with one(3) show ?thesis by simp
  qed
  from a b c show ?case by blast
qed

lemma sorted_le_last:
  assumes "sorted xs" and "x \<in> set xs"
  shows "x \<le> last (xs :: nat list)"
proof -
  from assms(2) obtain i where i: "i < length xs" "x = xs ! i"
    by (auto simp: in_set_conv_nth)
  then have "xs \<noteq> []" by auto
  then have "last xs = xs ! (length xs - 1)"
    by (rule last_conv_nth)
  moreover have "xs ! i \<le> xs ! (length xs - 1)"
    using assms(1) i(1) by (intro sorted_nth_mono) simp_all
  ultimately show ?thesis using i(2) by simp
qed

lemma stream_loop_sorted:
  assumes "stream_loop env ml clock fd idxs s = Inr (s', views)" and "sorted idxs"
    and "w \<in> set views"
  shows "tick_index w \<le> tick_index (last views)"
proof -
  have "sorted (map tick_index views)"
    unfolding stream_loop_prefix [OF assms(1)] using assms(2) by (rule sorted_wrt_take)
  moreover have "tick_index w \<in> set (map tick_index views)"
    using assms(3) by simp
  ultimately have "tick_index w \<le> last (map tick_index views)"
    by (rule sorted_le_last)
  moreover have "views \<noteq> []" using assms(3) by auto
  ultimately show ?thesis by (simp add: last_map)
qed

lemma live_stream_stops:
  assumes "live_stream env ml clock fd playback_speed s = Inr (s', views)"
    and "v \<in> set views" and "is_critical v" and "800 < tick_index v"
  shows "v = last views \<and> (\<forall>w \<in> set views. tick_index w \<le> tick_index v)"
proof -
  obtain idxs where loop: "stream_loop env ml clock fd idxs s = Inr (s', views)"
    and sorted: "sorted idxs"
    using live_stream_loop [OF assms(1)] by blast
  have "v = last views"
    using assms(2-4) by (intro stream_loop_stops [OF loop]) simp_all
  then show ?thesis
    using stream_loop_sorted [OF loop sorted] by simp
qed

lemma live_stream_buffer:
  assumes "live_stream env ml clock fd playback_speed s = Inr (s', views)"
    and "buffer_aligned (telemetry_buffer s)"
  shows "buffer_aligned (telemetry_buffer s')
    \<and> buf_time (telemetry_buffer s')
        = tail_slice 200 (buf_time (telemetry_buffer s) @ map view_time views)
    \<and> buf_pressure (telemetry_buffer s')
        = tail_slice 200 (buf_pressure (telemetry_buffer s) @ map view_pressure views)
    \<and> buf_displacement (telemetry_buffer s')
        = tail_slice 200 (buf_displacement (telemetry_buffer s) @ map view_displacement views)
    \<and> buf_fos (telemetry_buffer s')
        = tail_slice 200 (buf_fos (telemetry_buffer s) @ map view_fos views)"
proof -
  obtain idxs where loop: "stream_loop env ml clock fd idxs s = Inr (s', views)"
    using live_stream_loop [OF assms(1)] by blast
  from stream_loop_buffer [OF loop assms(2)] show ?thesis .
qed

text \<open>
  C3, amended. In a replay of the live stream that starts with \<open>alarm_already_logged\<close> false, the
  batch of five command records is appended exactly once, at the first critical tick,
  whatever the later ticks are; it is appended never when no tick is critical. A replay
  that starts with the flag set appends nothing and leaves it set, and a critical
  evaluation of the latch after a critical one leaves the log as it is. A replay returns
  when the playback speed is positive and the classifier call returns on the rows. So a
  session that consists of replays appends one batch at most, in the first replay with a
  critical tick. The flag does not last the session: INJECT FAILURE clears it and keeps
  the command log, and Reset clears the flag together with the log.
\<close>

theorem stream_alarm_logged_once:
  "(\<forall>s' views. live_stream env ml clock full_data playback_speed s = Inr (s', views) \<longrightarrow>
       (\<not> alarm_already_logged s \<longrightarrow>
          (case find is_critical views of
             None \<Rightarrow> command_log s' = command_log s
           | Some v \<Rightarrow>
               command_log s' = command_log s @ stream_alarm_batch (clock (tick_index v))
               \<and> length (command_log s') = length (command_log s) + 5
               \<and> alarm_triggered s' \<and> alarm_already_logged s'))
     \<and> (alarm_already_logged s \<longrightarrow> command_log s' = command_log s \<and> alarm_already_logged s'))
   \<and> (0 < playback_speed \<and> risk_call_returns env ml full_data \<longrightarrow>
        (\<exists>s' views. live_stream env ml clock full_data playback_speed s = Inr (s', views)))
   \<and> command_log (stream_alarm_latch ct' True (stream_alarm_latch ct True s))
       = command_log (stream_alarm_latch ct True s)
   \<and> (list_all is_replay events \<and> run_session env ml nz events s = Inr s'' \<longrightarrow>
        (alarm_already_logged s \<longrightarrow> command_log s'' = command_log s \<and> alarm_already_logged s'')
      \<and> (\<not> alarm_already_logged s \<and> alarm_already_logged s'' \<longrightarrow>
           (\<exists>ct. command_log s'' = command_log s @ stream_alarm_batch ct)
           \<and> length (command_log s'') = length (command_log s) + 5)
      \<and> (\<not> alarm_already_logged s'' \<longrightarrow> command_log s'' = command_log s))
   \<and> command_log (press_inject_failure s) = command_log s
   \<and> \<not> alarm_already_logged (press_inject_failure s)
   \<and> inject_failure (press_inject_failure s)
   \<and> (inject_failure s \<longrightarrow>
        command_log (press_reset s) = [] \<and> \<not> alarm_already_logged (press_reset s))"
proof (intro conjI allI impI)
  fix s' views
  assume run: "live_stream env ml clock full_data playback_speed s = Inr (s', views)"
  show "case find is_critical views of
             None \<Rightarrow> command_log s' = command_log s
           | Some v \<Rightarrow>
               command_log s' = command_log s @ stream_alarm_batch (clock (tick_index v))
               \<and> length (command_log s') = length (command_log s) + 5
               \<and> alarm_triggered s' \<and> alarm_already_logged s'"
    if "\<not> alarm_already_logged s"
    using that by (rule live_stream_once(1) [OF run])
  show "command_log s' = command_log s" and "alarm_already_logged s'" if "alarm_already_logged s"
    using live_stream_once(2) [OF run that] by simp_all
next
  assume "0 < playback_speed \<and> risk_call_returns env ml full_data"
  then show "\<exists>s' views. live_stream env ml clock full_data playback_speed s = Inr (s', views)"
    using live_stream_total [of playback_speed env ml full_data clock s] by simp
next
  show "command_log (stream_alarm_latch ct' True (stream_alarm_latch ct True s))
       = command_log (stream_alarm_latch ct True s)"
    by (simp add: stream_alarm_latch_def)
next
  assume a: "list_all is_replay events \<and> run_session env ml nz events s = Inr s''"
  then have log: "(alarm_already_logged s \<longrightarrow> command_log s'' = command_log s \<and> alarm_already_logged s'')
    \<and> (\<not> alarm_already_logged s \<and> alarm_already_logged s'' \<longrightarrow>
         (\<exists>ct. command_log s'' = command_log s @ stream_alarm_batch ct))
    \<and> (\<not> alarm_already_logged s'' \<longrightarrow> command_log s'' = command_log s)"
    using run_session_replays_log [of events env ml nz s s''] by simp
  show "command_log s'' = command_log s" and "alarm_already_logged s''" if "alarm_already_logged s"
    using that log by simp_all
  show "\<exists>ct. command_log s'' = command_log s @ stream_alarm_batch ct"
    if "\<not> alarm_already_logged s \<and> alarm_already_logged s''"
    using that log by simp
  then show "length (command_log s'') = length (command_log s) + 5"
    if "\<not> alarm_already_logged s \<and> alarm_already_logged s''"
    using that by auto
  show "command_log s'' = command_log s" if "\<not> alarm_already_logged s''"
    using that log by simp
next
  show "command_log (press_inject_failure s) = command_log s"
    and "\<not> alarm_already_logged (press_inject_failure s)"
    and "inject_failure (press_inject_failure s)"
    by (simp_all add: press_inject_failure_def)
next
  assume "inject_failure s"
  then show "command_log (press_reset s) = []" and "\<not> alarm_already_logged (press_reset s)"
    by (simp_all add: press_reset_def)
qed

text \<open>
  C8. Starting from a buffer as the loop keeps it, a replay leaves in each of the keys
  time, pressure, displacement and fos the last 200 of the old entries followed by the
  values of the rendered ticks in their order. Starting from the empty buffer, each key
  holds exactly \<open>min(n, 200)\<close> entries after \<open>n\<close> ticks: the most recent ones in the
  order of their appends. A replay returns when the playback speed is positive and the
  classifier call returns on the rows.
\<close>

theorem telemetry_buffer_rolling:
  assumes "buffer_aligned (telemetry_buffer s)"
  shows "(\<forall>s' views. live_stream env ml clock full_data playback_speed s = Inr (s', views) \<longrightarrow>
       buf_time (telemetry_buffer s')
         = tail_slice 200 (buf_time (telemetry_buffer s) @ map view_time views)
     \<and> buf_pressure (telemetry_buffer s')
         = tail_slice 200 (buf_pressure (telemetry_buffer s) @ map view_pressure views)
     \<and> buf_displacement (telemetry_buffer s')
         = tail_slice 200 (buf_displacement (telemetry_buffer s) @ map view_displacement views)
     \<and> buf_fos (telemetry_buffer s')
         = tail_slice 200 (buf_fos (telemetry_buffer s) @ map view_fos views)
     \<and> (telemetry_buffer s = telemetry_buffer initial_session \<longrightarrow>
          buf_time (telemetry_buffer s') = drop (length views - 200) (map view_time views)
          \<and> buf_pressure (telemetry_buffer s') = drop (length views - 200) (map view_pressure views)
          \<and> buf_displacement (telemetry_buffer s')
              = drop (length views - 200) (map view_displacement views)
          \<and> buf_fos (telemetry_buffer s') = drop (length views - 200) (map view_fos views)
          \<and> length (buf_time (telemetry_buffer s')) = min (length views) 200
          \<and> length (buf_pressure (telemetry_buffer s')) = min (length views) 200
          \<and> length (buf_displacement (telemetry_buffer s')) = min (length views) 200
          \<and> length (buf_fos (telemetry_buffer s')) = min (length views) 200))
   \<and> (0 < playback_speed \<and> risk_call_returns env ml full_data \<longrightarrow>
        (\<exists>s' views. live_stream env ml clock full_data playback_speed s = Inr (s', views)))"
proof (intro conjI allI impI)
  assume "0 < playback_speed \<and> risk_call_returns env ml full_data"
  then show "\<exists>s' views. live_stream env ml clock full_data playback_speed s = Inr (s', views)"
    using live_stream_total [of playback_speed env ml full_data clock s] by simp
next
  fix s' views
  assume run: "live_stream env ml clock full_data playback_speed s = Inr (s', views)"
  note buf = live_stream_buffer [OF run assms]
  show "buf_time (telemetry_buffer s')
         = tail_slice 200 (buf_time (telemetry_buffer s) @ map view_time views)"
    and "buf_pressure (telemetry_buffer s')
         = tail_slice 200 (buf_pressure (telemetry_buffer s) @ map view_pressure views)"
    and "buf_displacement (telemetry_buffer s')
         = tail_slice 200 (buf_displacement (telemetry_buffer s) @ map view_displacement views)"
    and "buf_fos (telemetry_buffer s')
         = tail_slice 200 (buf_fos (telemetry_buffer s) @ map view_fos views)"
    using buf by simp_all
  assume empty: "telemetry_buffer s = telemetry_buffer initial_session"
  show "buf_time (telemetry_buffer s') = drop (length views - 200) (map view_time views)"
    and "buf_pressure (telemetry_buffer s') = drop (length views - 200) (map view_pressure views)"
    and "buf_displacement (telemetry_buffer s')
              = drop (length views - 200) (map view_displacement views)"
    and "buf_fos (telemetry_buffer s') = drop (length views - 200) (map view_fos views)"
    and "length (buf_time (telemetry_buffer s')) = min (length views) 200"
    and "length (buf_pressure (telemetry_buffer s')) = min (length views) 200"
    and "length (buf_displacement (telemetry_buffer s')) = min (length views) 200"
    and "length (buf_fos (telemetry_buffer s')) = min (length views) 200"
    using buf empty by (simp_all add: initial_session_def tail_slice_def min_def)
qed

text \<open>
  C5. A replay of the live stream runs over the 1000 rows of \<open>get_dataset\<close>. Once a tick
  is critical at an index above 80 percent of the series length, the loop has ended with
  that tick: it is the last rendered one and no rendered tick has a greater index. The
  replay returns when the playback speed is positive and the classifier call returns on
  the rows.
\<close>

theorem stream_stops_after_80_percent:
  "\<exists>full_data. tab1_data nz scenario s = Inr full_data
     \<and> (\<forall>s' views.
           tab1_live_stream env ml clock nz scenario playback_speed s = Inr (s', views) \<longrightarrow>
           (\<forall>v \<in> set views.
              is_critical v \<and> real (tick_index v) > (8/10) * real (length full_data)
              \<longrightarrow> v = last views \<and> (\<forall>w \<in> set views. tick_index w \<le> tick_index v)))
     \<and> (0 < playback_speed \<and> risk_call_returns env ml full_data \<longrightarrow>
          (\<exists>s' views.
             tab1_live_stream env ml clock nz scenario playback_speed s = Inr (s', views)))"
proof -
  obtain fd where fd: "tab1_data nz scenario s = Inr fd" and len: "length fd = 1000"
    using tab1_data_ok by blast
  have stops: "v = last views \<and> (\<forall>w \<in> set views. tick_index w \<le> tick_index v)"
    if run: "tab1_live_stream env ml clock nz scenario playback_speed s = Inr (s', views)"
      and v: "v \<in> set views"
      and crit: "is_critical v \<and> real (tick_index v) > (8/10) * real (length fd)"
    for s' views v
  proof -
    from run fd have live: "live_stream env ml clock fd playback_speed s = Inr (s', views)"
      by (simp add: tab1_live_stream_def)
    from crit len have "800 < tick_index v" by simp
    with crit show ?thesis
      by (intro live_stream_stops [OF live v]) simp_all
  qed
  have total: "\<exists>s' views.
      tab1_live_stream env ml clock nz scenario playback_speed s = Inr (s', views)"
    if "0 < playback_speed \<and> risk_call_returns env ml fd"
    using that tab1_live_stream_total [of playback_speed nz scenario s fd env ml clock] fd
    by simp
  from fd stops total show ?thesis
    by blast
qed

section \<open>Criticality of rows and concrete runs\<close>

lemma row_critical_drowned:
  assumes "120 \<le> Pore_Water_Pressure_kPa r" and "0 \<le> Displacement_mm r"
  shows "row_critical r"
proof -
  let ?d = "Displacement_mm r"
  have num: "50 + py_max (120 - Pore_Water_Pressure_kPa r) (1/10) * tan (radians 35) < 51"
    using assms(1) tan_radians_35 by (simp add: py_max_def)
  have den: "py_max (calculate_shear_stress ?d 80 (25/10)) (1/10) = 80 + ?d * (25/10)"
    using assms(2) by (simp add: py_max_def calculate_shear_stress_def)
  have den80: "80 \<le> 80 + ?d * (25/10)"
    using assms(2) by simp
  have "row_fos r = (50 + py_max (120 - Pore_Water_Pressure_kPa r) (1/10) * tan (radians 35))
      / py_max (calculate_shear_stress ?d 80 (25/10)) (1/10)"
    by (simp add: row_fos_def calculate_fos_def)
  also have "\<dots> = (50 + py_max (120 - Pore_Water_Pressure_kPa r) (1/10) * tan (radians 35))
      / (80 + ?d * (25/10))"
    by (simp only: den)
  also have "\<dots> < 51 / (80 + ?d * (25/10))"
    using num den80 by (intro divide_strict_right_mono) simp_all
  also have "\<dots> \<le> 51 / 80"
    using den80 by (intro divide_left_mono) simp_all
  finally show ?thesis
    by (simp add: row_critical_def)
qed

lemma row_critical_dry:
  assumes "Pore_Water_Pressure_kPa r = 0" and "Displacement_mm r = 0"
  shows "\<not> row_critical r"
proof -
  have "row_fos r = (50 + 120 * tan (radians 35)) / 80"
    using assms by (simp add: row_fos_def calculate_fos_def py_max_def calculate_shear_stress_def)
  then show ?thesis
    using tan_radians_35 by (simp add: row_critical_def)
qed

lemma probe_row_critical [simp]:
  "row_critical (probe_row t 200 0)" "\<not> row_critical (probe_row t 0 0)"
  by (simp_all add: row_critical_drowned row_critical_dry probe_row_def)

lemma py_range_3: "py_range 3 1 = Inr [0, 1, 2]"
  by (simp add: py_range_def upt_rec)

lemma unloaded_engine_returns: "risk_call_returns env unloaded_engine rows"
  by (rule risk_call_returns_unloaded) (simp add: unloaded_engine_def)

lemma seismic_rows:
  assumes "generate_gsi_dataset nz N ''seismic'' = Inr df" and "i < length df"
  shows "Pore_Water_Pressure_kPa (df ! i) = 30 + normal1 nz i" and "1 \<le> Displacement_mm (df ! i)"
proof -
  have N: "0 \<le> N"
    using assms(1) generate_negative [of N nz "''seismic''"] by (cases "0 \<le> N") simp_all
  let ?t = "linspace_values 0 24 (nat N)"
  let ?data = "generate_seismic_scenario nz ?t (nat N)"
  have lt: "length ?t = nat N" by simp
  have "\<exists>df. pd_DataFrame ?t (replicate (nat N) ''Quartzite (Fractured)'')
        (np_random_randint (rqd_noise nz) 40 50 (nat N)) (pressure ?data) (acoustic ?data)
        (displacement ?data) (intensity ?data) = Inr df
      \<and> length df = length ?t \<and> map Time_Hrs df = ?t
      \<and> map Pore_Water_Pressure_kPa df = pressure ?data \<and> map Displacement_mm df = displacement ?data"
    using seismic_lengths [OF lt, of nz]
    by (intro pd_DataFrame_ok) (simp_all add: np_random_randint_def)
  then have len: "length df = nat N"
    and pres: "map Pore_Water_Pressure_kPa df = pressure ?data"
    and disp: "map Displacement_mm df = displacement ?data"
    using assms(1) unfolding generate_gsi_dataset_unfold [OF N] by auto
  have "Pore_Water_Pressure_kPa (df ! i) = map Pore_Water_Pressure_kPa df ! i"
    using assms(2) by simp
  also have "\<dots> = 30 + normal1 nz i"
    unfolding pres using assms(2) len
    by (simp add: generate_seismic_scenario_def Let_def np_random_normal_def)
  finally show "Pore_Water_Pressure_kPa (df ! i) = 30 + normal1 nz i" .
  have "Displacement_mm (df ! i) = map Displacement_mm df ! i"
    using assms(2) by simp
  also have "\<dots> = 1 + exp (- ((?t ! i - 12)\<^sup>2) / 2) * 8"
    unfolding disp using assms(2) len
    by (simp add: generate_seismic_scenario_def Let_def)
  finally show "1 \<le> Displacement_mm (df ! i)" by simp
qed

lemma inject_spike_nth:
  assumes "i < length fd"
  shows "inject_spike fd ! i =
      (if nat \<lfloor>real (length fd) * (8/10)\<rfloor> \<le> i
       then (fd ! i)\<lparr>Pore_Water_Pressure_kPa := Pore_Water_Pressure_kPa (fd ! i) * (15/10)\<rparr>
       else fd ! i)"
  using assms by (simp add: inject_spike_def Let_def nth_enumerate_eq)

lemma loud_rows_critical:
  assumes "tab1_data loud_noise ''seismic'' s = Inr fd" and "i < length fd"
  shows "row_critical (fd ! i)"
proof -
  obtain df where gen: "generate_gsi_dataset loud_noise 1000 ''seismic'' = Inr df"
    and fd: "fd = (if inject_failure s then inject_spike df else df)"
    using assms(1) by (auto simp: tab1_data_def get_dataset_def split: sum.splits)
  have i: "i < length df"
    using assms(2) fd by (simp split: if_splits)
  have p: "Pore_Water_Pressure_kPa (df ! i) = 130"
    using seismic_rows(1) [OF gen i] by (simp add: loud_noise_def)
  have d: "1 \<le> Displacement_mm (df ! i)"
    by (rule seismic_rows(2) [OF gen i])
  show ?thesis
  proof (rule row_critical_drowned)
    show "120 \<le> Pore_Water_Pressure_kPa (fd ! i)"
      using p i fd by (simp add: inject_spike_nth)
    show "0 \<le> Displacement_mm (fd ! i)"
      using d i fd by (simp add: inject_spike_nth)
  qed
qed

lemma loud_replay:
  "\<exists>s'. session_step bare_env unloaded_engine loud_source
          (LiveStreamRun ''seismic'' 20 clock) s = Inr s'
     \<and> alarm_already_logged s'
     \<and> command_log s' = command_log s @
         (if alarm_already_logged s then [] else stream_alarm_batch (clock 0))"
proof -
  obtain fd where fd: "tab1_data loud_noise ''seismic'' s = Inr fd" and len: "length fd = 1000"
    using tab1_data_ok by blast
  have pos: "0 < (20::nat)" by simp
  obtain s' views
    where run: "tab1_live_stream bare_env unloaded_engine clock loud_noise ''seismic'' 20 s
        = Inr (s', views)"
    using tab1_live_stream_total [OF pos fd unloaded_engine_returns] by blast
  then have step: "session_step bare_env unloaded_engine loud_source
          (LiveStreamRun ''seismic'' 20 clock) s = Inr s'"
    by (simp add: loud_source_def)
  from run fd have live: "live_stream bare_env unloaded_engine clock fd 20 s = Inr (s', views)"
    by (simp add: tab1_live_stream_def)
  obtain idxs where idxs: "py_range (length fd) 20 = Inr idxs"
    and loop: "stream_loop bare_env unloaded_engine clock fd idxs s = Inr (s', views)"
    using live_stream_loop [OF live] by blast
  have "[0..<50::nat] = 0 # [Suc 0..<50]"
    by (rule upt_conv_Cons) simp
  then have "map (\<lambda>k. k * 20) [0..<50::nat] = 0 # map (\<lambda>k. k * 20) [Suc 0..<50]"
    by simp
  moreover have "idxs = map (\<lambda>k. k * 20) [0..<50::nat]"
    using idxs len by (simp add: py_range_def)
  ultimately have "idxs = 0 # map (\<lambda>k. k * 20) [Suc 0..<50]"
    by simp
  with loop have "stream_loop bare_env unloaded_engine clock fd
      (0 # map (\<lambda>k. k * 20) [Suc 0..<50]) s = Inr (s', views)"
    by simp
  then obtain s1 v vs where tick: "stream_tick bare_env unloaded_engine clock fd 0 s = Inr (s1, v)"
    and views: "views = v # vs"
    by (cases rule: stream_loop_ConsE) blast+
  have "row_critical (fd ! 0)"
    using len by (intro loud_rows_critical [OF fd]) simp
  with stream_tick_effect(3,4) [OF tick] have v: "tick_index v = 0" "is_critical v"
    by simp_all
  with views have found: "find is_critical views = Some v" and some: "\<exists>w \<in> set views. is_critical w"
    by simp_all
  from live_stream_log(1,2) [OF live] found some v(1)
  have "alarm_already_logged s'"
    and "command_log s' = command_log s @
         (if alarm_already_logged s then [] else stream_alarm_batch (clock 0))"
    by simp_all
  with step show ?thesis by blast
qed

theorem stream_alarm_logged_once_witness:
  "0 < (1::nat) \<and> \<not> alarm_already_logged initial_session
   \<and> risk_call_returns bare_env unloaded_engine
        [probe_row 0 0 0, probe_row 1 200 0, probe_row 2 200 0]
   \<and> (\<exists>s' views. live_stream bare_env unloaded_engine tick_clock
          [probe_row 0 0 0, probe_row 1 200 0, probe_row 2 200 0] 1 initial_session = Inr (s', views)
        \<and> map tick_index views = [0, 1, 2]
        \<and> map is_critical views = [False, True, True]
        \<and> command_log s' = stream_alarm_batch ''12:00:01''
        \<and> length (command_log s') = 5)
   \<and> list_all is_replay
        [LiveStreamRun ''seismic'' 20 tick_clock, LiveStreamRun ''seismic'' 20 tick_clock]
   \<and> (\<exists>s''. run_session bare_env unloaded_engine loud_source
          [LiveStreamRun ''seismic'' 20 tick_clock, LiveStreamRun ''seismic'' 20 tick_clock]
          initial_session = Inr s''
        \<and> alarm_already_logged s''
        \<and> command_log s'' = stream_alarm_batch ''12:00:00''
        \<and> length (command_log s'') = 5)
   \<and> inject_failure (press_inject_failure initial_session)
   \<and> command_log (press_reset (press_inject_failure initial_session)) = []"
proof -
  let ?fd = "[probe_row 0 0 0, probe_row 1 200 0, probe_row 2 200 0]"
  let ?events = "[LiveStreamRun ''seismic'' 20 tick_clock, LiveStreamRun ''seismic'' 20 tick_clock]"
  have pos: "0 < (1::nat)" by simp
  have rcr: "risk_call_returns bare_env unloaded_engine ?fd"
    by (rule unloaded_engine_returns)
  have fresh: "\<not> alarm_already_logged initial_session" "command_log initial_session = []"
    by (simp_all add: initial_session_def)
  have replays: "list_all is_replay ?events" by simp
  obtain s1 where s1: "session_step bare_env unloaded_engine loud_source
          (LiveStreamRun ''seismic'' 20 tick_clock) initial_session = Inr s1"
    and logged1: "alarm_already_logged s1"
    and log1: "command_log s1 = stream_alarm_batch (tick_clock 0)"
    using loud_replay [of tick_clock initial_session] fresh by auto
  obtain s2 where s2: "session_step bare_env unloaded_engine loud_source
          (LiveStreamRun ''seismic'' 20 tick_clock) s1 = Inr s2"
    and logged2: "alarm_already_logged s2"
    using loud_replay [of tick_clock s1] by auto
  have session: "run_session bare_env unloaded_engine loud_source ?events initial_session
      = Inr s2"
    unfolding run_session.simps s1 s2 sum.case ..
  note inst = stream_alarm_logged_once [where env = bare_env and ml = unloaded_engine
      and clock = tick_clock and full_data = ?fd and playback_speed = 1 and s = initial_session
      and events = ?events and nz = loud_source and s'' = s2]
  from inst pos rcr
  obtain s' views where run: "live_stream bare_env unloaded_engine tick_clock ?fd 1 initial_session
      = Inr (s', views)"
    by blast
  from inst run fresh(1)
  have once: "case find is_critical views of
             None \<Rightarrow> command_log s' = command_log initial_session
           | Some v \<Rightarrow>
               command_log s' = command_log initial_session @ stream_alarm_batch (tick_clock (tick_index v))
               \<and> length (command_log s') = length (command_log initial_session) + 5
               \<and> alarm_triggered s' \<and> alarm_already_logged s'"
    by blast
  have pr: "py_range (length ?fd) 1 = Inr [0, 1, 2]"
    by (simp add: py_range_def upt_rec)
  from run have loop: "stream_loop bare_env unloaded_engine tick_clock ?fd [0, 1, 2] initial_session
      = Inr (s', views)"
    unfolding live_stream_def pr sum.case .
  have idx: "map tick_index views = [0, 1, 2]"
    using stream_loop_complete [OF loop] by simp
  then obtain a b c where views: "views = [a, b, c]"
    and ti: "tick_index a = 0" "tick_index b = 1" "tick_index c = 2"
    by (auto simp: map_eq_Cons_conv)
  have crit: "\<not> is_critical a" "is_critical b" "is_critical c"
    using stream_loop_rows [OF loop, of a] stream_loop_rows [OF loop, of b]
      stream_loop_rows [OF loop, of c] ti views
    by simp_all
  from once fresh views crit ti
  have single: "command_log s' = stream_alarm_batch ''12:00:01'' \<and> length (command_log s') = 5"
    by (simp add: tick_clock_def)
  from inst replays session fresh(1) logged2
  have "(\<exists>ct. command_log s2 = command_log initial_session @ stream_alarm_batch ct)
      \<and> length (command_log s2) = length (command_log initial_session) + 5"
    by blast
  then have len2: "length (command_log s2) = 5"
    using fresh(2) by simp
  have keep: "command_log s2 = command_log s1"
    using loud_replay [of tick_clock s1] s2 logged1 by auto
  have log2: "command_log s2 = stream_alarm_batch ''12:00:00''"
    using keep log1 by (simp add: tick_clock_def)
  have buttons: "inject_failure (press_inject_failure initial_session)"
    "command_log (press_reset (press_inject_failure initial_session)) = []"
    by (simp_all add: press_inject_failure_def press_reset_def)
  have first: "\<exists>s' views. live_stream bare_env unloaded_engine tick_clock ?fd 1 initial_session
          = Inr (s', views)
        \<and> map tick_index views = [0, 1, 2]
        \<and> map is_critical views = [False, True, True]
        \<and> command_log s' = stream_alarm_batch ''12:00:01''
        \<and> length (command_log s') = 5"
    using run idx views crit single by simp
  have second: "\<exists>s''. run_session bare_env unloaded_engine loud_source ?events
          initial_session = Inr s''
        \<and> alarm_already_logged s''
        \<and> command_log s'' = stream_alarm_batch ''12:00:00''
        \<and> length (command_log s'') = 5"
    using session logged2 log2 len2 by blast
  from pos fresh(1) rcr first replays second buttons show ?thesis
    by blast
qed

text \<open>
  C3 as stated fails for a session in which INJECT FAILURE is pressed: a replay of the
  seismic scenario with critical ticks, a press of INJECT FAILURE and a second replay
  leave two batches in the command log, ten records.
\<close>

theorem stream_alarm_second_batch_counterexample:
  "map_sum id command_log
     (run_session bare_env unloaded_engine loud_source
        [LiveStreamRun ''seismic'' 20 tick_clock, InjectFailureButton,
         LiveStreamRun ''seismic'' 20 late_clock]
        initial_session)
     = Inr (stream_alarm_batch ''12:00:00'' @ stream_alarm_batch ''12:05:00'')
   \<and> length (stream_alarm_batch ''12:00:00'' @ stream_alarm_batch ''12:05:00'') = 10"
proof -
  have fresh: "\<not> alarm_already_logged initial_session" "command_log initial_session = []"
    by (simp_all add: initial_session_def)
  obtain s1 where s1: "session_step bare_env unloaded_engine loud_source
          (LiveStreamRun ''seismic'' 20 tick_clock) initial_session = Inr s1"
    and log1: "command_log s1 = stream_alarm_batch ''12:00:00''"
    using loud_replay [of tick_clock initial_session] fresh by (auto simp: tick_clock_def)
  have pressed: "\<not> alarm_already_logged (press_inject_failure s1)"
    "command_log (press_inject_failure s1) = command_log s1"
    by (simp_all add: press_inject_failure_def)
  obtain s2 where s2: "session_step bare_env unloaded_engine loud_source
          (LiveStreamRun ''seismic'' 20 late_clock) (press_inject_failure s1) = Inr s2"
    and log2: "command_log s2 = command_log s1 @ stream_alarm_batch ''12:05:00''"
    using loud_replay [of late_clock "press_inject_failure s1"] pressed
    by (auto simp: late_clock_def)
  have "run_session bare_env unloaded_engine loud_source
          [LiveStreamRun ''seismic'' 20 tick_clock, InjectFailureButton,
           LiveStreamRun ''seismic'' 20 late_clock]
          initial_session = Inr s2"
    unfolding run_session.simps s1 session_step.simps(2) s2 sum.case ..
  moreover have "command_log s2 = stream_alarm_batch ''12:00:00'' @ stream_alarm_batch ''12:05:00''"
    using log1 log2 by simp
  ultimately show ?thesis by simp
qed

theorem telemetry_buffer_rolling_witness:
  "0 < (1::nat) \<and> buffer_aligned (telemetry_buffer initial_session)
   \<and> risk_call_returns bare_env unloaded_engine (replicate 250 (probe_row 0 0 0))
   \<and> (\<exists>s' views. live_stream bare_env unloaded_engine tick_clock
          (replicate 250 (probe_row 0 0 0)) 1 initial_session = Inr (s', views)
        \<and> length views = 250
        \<and> length (buf_time (telemetry_buffer s')) = 200
        \<and> length (buf_pressure (telemetry_buffer s')) = 200
        \<and> length (buf_displacement (telemetry_buffer s')) = 200
        \<and> length (buf_fos (telemetry_buffer s')) = 200
        \<and> buf_fos (telemetry_buffer s') = drop 50 (map view_fos views))"
proof -
  let ?fd = "replicate 250 (probe_row 0 0 0)"
  have pos: "0 < (1::nat)" by simp
  have al: "buffer_aligned (telemetry_buffer initial_session)"
    by (simp add: buffer_aligned_def initial_session_def)
  have rcr: "risk_call_returns bare_env unloaded_engine ?fd"
    by (rule unloaded_engine_returns)
  note inst = telemetry_buffer_rolling [OF al, where env = bare_env and ml = unloaded_engine
      and clock = tick_clock and full_data = ?fd and playback_speed = 1]
  from inst pos rcr
  obtain s' views where run: "live_stream bare_env unloaded_engine tick_clock ?fd 1 initial_session
      = Inr (s', views)"
    by blast
  from inst run
  have roll: "buf_fos (telemetry_buffer s') = drop (length views - 200) (map view_fos views)
          \<and> length (buf_time (telemetry_buffer s')) = min (length views) 200
          \<and> length (buf_pressure (telemetry_buffer s')) = min (length views) 200
          \<and> length (buf_displacement (telemetry_buffer s')) = min (length views) 200
          \<and> length (buf_fos (telemetry_buffer s')) = min (length views) 200"
    by blast
  from run have loop: "stream_loop bare_env unloaded_engine tick_clock ?fd
      (map (\<lambda>k. k * 1) [0..<250]) initial_session = Inr (s', views)"
    by (simp add: live_stream_def py_range_def)
  have "map tick_index views = map (\<lambda>k. k * 1) [0..<250]"
    using stream_loop_complete [OF loop] by simp
  then have "length (map tick_index views) = 250"
    by simp
  then have len: "length views = 250"
    by simp
  with run roll al rcr show ?thesis by simp
qed

theorem stream_stops_after_80_percent_witness:
  "0 < (20::nat)
   \<and> (\<exists>full_data s' views. tab1_data loud_noise ''seismic'' initial_session = Inr full_data
        \<and> length full_data = 1000
        \<and> risk_call_returns bare_env unloaded_engine full_data
        \<and> tab1_live_stream bare_env unloaded_engine tick_clock loud_noise ''seismic'' 20 initial_session
            = Inr (s', views)
        \<and> last views \<in> set views \<and> is_critical (last views)
        \<and> real (tick_index (last views)) > (8/10) * real (length full_data)
        \<and> (\<forall>w \<in> set views. tick_index w \<le> tick_index (last views)))"
proof -
  have pos: "0 < (20::nat)" by simp
  obtain fd where fd: "tab1_data loud_noise ''seismic'' initial_session = Inr fd"
    and stop: "\<forall>s' views.
           tab1_live_stream bare_env unloaded_engine tick_clock loud_noise ''seismic'' 20
             initial_session = Inr (s', views) \<longrightarrow>
           (\<forall>v \<in> set views.
              is_critical v \<and> real (tick_index v) > (8/10) * real (length fd)
              \<longrightarrow> v = last views \<and> (\<forall>w \<in> set views. tick_index w \<le> tick_index v))"
    and total: "0 < (20::nat) \<and> risk_call_returns bare_env unloaded_engine fd \<longrightarrow>
          (\<exists>s' views.
             tab1_live_stream bare_env unloaded_engine tick_clock loud_noise ''seismic'' 20
               initial_session = Inr (s', views))"
    using stream_stops_after_80_percent [where nz = loud_noise and scenario = "''seismic''"
        and s = initial_session and env = bare_env and ml = unloaded_engine and clock = tick_clock
        and playback_speed = 20]
    by blast
  have rcr: "risk_call_returns bare_env unloaded_engine fd"
    by (rule unloaded_engine_returns)
  from total pos rcr
  obtain s' views
    where run: "tab1_live_stream bare_env unloaded_engine tick_clock loud_noise ''seismic'' 20
        initial_session = Inr (s', views)"
    by blast
  have len: "length fd = 1000"
    using tab1_data_ok [of loud_noise "''seismic''" initial_session] fd by simp
  have "row_critical (fd ! 820)"
    using len by (intro loud_rows_critical [OF fd]) simp
  moreover have "820 \<in> set (map (\<lambda>k. k * 20) [0..<(1000 + 20 - 1) div 20])"
    by (auto intro!: image_eqI [of _ _ 41])
  ultimately have ex: "\<exists>i \<in> set (map (\<lambda>k. k * 20) [0..<(1000 + 20 - 1) div 20]).
      row_critical (fd ! i) \<and> 800 < i"
    by (intro bexI [of _ 820]) simp_all
  from run fd len have loop: "stream_loop bare_env unloaded_engine tick_clock fd
      (map (\<lambda>k. k * 20) [0..<(1000 + 20 - 1) div 20]) initial_session = Inr (s', views)"
    by (simp add: tab1_live_stream_def live_stream_def py_range_def)
  from stream_loop_breaks [OF loop ex]
  have ne: "views \<noteq> []" and crit: "is_critical (last views)" and past: "800 < tick_index (last views)"
    by simp_all
  from ne have mem: "last views \<in> set views" by simp
  have "real (tick_index (last views)) > (8/10) * real (length fd)"
    using past len by simp
  with stop run mem crit have "\<forall>w \<in> set views. tick_index w \<le> tick_index (last views)"
    by blast
  with fd len rcr run mem crit past show ?thesis by simp
qed

section \<open>The manual forensics page\<close>

lemma forensic_alarm_batch_length [simp]: "length (forensic_alarm_batch ct) = 4"
  by (simp add: forensic_alarm_batch_def)

lemma manual_forensics_returns:
  assumes "full_data \<noteq> []"
    and "predict_risk env ml
          (Pore_Water_Pressure_kPa
            (last (if filter (\<lambda>r. Time_Hrs r \<le> timeline_hour) full_data = []
                   then take 1 full_data
                   else filter (\<lambda>r. Time_Hrs r \<le> timeline_hour) full_data)))
          (Displacement_mm
            (last (if filter (\<lambda>r. Time_Hrs r \<le> timeline_hour) full_data = []
                   then take 1 full_data
                   else filter (\<lambda>r. Time_Hrs r \<le> timeline_hour) full_data)))
        = Inr (ml_risk, ml_prob)"
  shows "\<exists>v. manual_forensics env ml ct full_data timeline_hour s
        = Inr (forensic_alarm_latch ct (is_critical v) s, v)
    \<and> is_critical v =
        row_critical (last (if filter (\<lambda>r. Time_Hrs r \<le> timeline_hour) full_data = []
                            then take 1 full_data
                            else filter (\<lambda>r. Time_Hrs r \<le> timeline_hour) full_data))"
proof -
  let ?sel = "filter (\<lambda>r. Time_Hrs r \<le> timeline_hour) full_data"
  let ?cur = "if ?sel = [] then take 1 full_data else ?sel"
  have ne: "?cur \<noteq> []"
    using assms(1) by (cases full_data) auto
  obtain ttf where ttf: "calculate_ttf (map Displacement_mm ?cur) (Some (map Time_Hrs ?cur)) (1/2)
      = Inr ttf"
    using calculate_ttf_paired [of "map Time_Hrs ?cur" "map Displacement_mm ?cur" "1/2"]
    by auto
  show ?thesis
  proof (cases "?sel = []")
    case True
    with ne ttf assms(2) show ?thesis
      by (simp add: manual_forensics_def Let_def row_critical_def row_fos_def)
  next
    case False
    with ne ttf assms(2) show ?thesis
      by (simp add: manual_forensics_def Let_def row_critical_def row_fos_def)
  qed
qed

lemma manual_forensics_raises:
  assumes "predict_risk env ml
          (Pore_Water_Pressure_kPa
            (last (if filter (\<lambda>r. Time_Hrs r \<le> timeline_hour) full_data = []
                   then take 1 full_data
                   else filter (\<lambda>r. Time_Hrs r \<le> timeline_hour) full_data)))
          (Displacement_mm
            (last (if filter (\<lambda>r. Time_Hrs r \<le> timeline_hour) full_data = []
                   then take 1 full_data
                   else filter (\<lambda>r. Time_Hrs r \<le> timeline_hour) full_data)))
        = Inl e"
  shows "\<exists>e'. manual_forensics env ml ct full_data timeline_hour s = Inl e'"
proof -
  let ?sel = "filter (\<lambda>r. Time_Hrs r \<le> timeline_hour) full_data"
  let ?cur = "if ?sel = [] then take 1 full_data else ?sel"
  obtain ttf where ttf: "calculate_ttf (map Displacement_mm ?cur) (Some (map Time_Hrs ?cur)) (1/2)
      = Inr ttf"
    using calculate_ttf_paired [of "map Time_Hrs ?cur" "map Displacement_mm ?cur" "1/2"]
    by auto
  show ?thesis
  proof (cases "?sel = []")
    case True
    with ttf assms show ?thesis
      by (simp add: manual_forensics_def Let_def)
  next
    case False
    with ttf assms show ?thesis
      by (simp add: manual_forensics_def Let_def)
  qed
qed

lemma manual_forensics_total:
  assumes "full_data \<noteq> []" and "risk_call_returns env ml full_data"
  shows "\<exists>v. manual_forensics env ml ct full_data timeline_hour s
        = Inr (forensic_alarm_latch ct (is_critical v) s, v)
    \<and> is_critical v =
        row_critical (last (if filter (\<lambda>r. Time_Hrs r \<le> timeline_hour) full_data = []
                            then take 1 full_data
                            else filter (\<lambda>r. Time_Hrs r \<le> timeline_hour) full_data))"
proof -
  let ?sel = "filter (\<lambda>r. Time_Hrs r \<le> timeline_hour) full_data"
  let ?cur = "if ?sel = [] then take 1 full_data else ?sel"
  have ne: "?cur \<noteq> []"
    using assms(1) by (cases full_data) auto
  then have "last ?cur \<in> set ?cur"
    by (rule last_in_set)
  moreover have "set ?cur \<subseteq> set full_data"
    by (auto dest: in_set_takeD)
  ultimately have "last ?cur \<in> set full_data"
    by blast
  from risk_call_returns_row [OF assms(2) this]
  obtain ml_risk ml_prob
    where "predict_risk env ml (Pore_Water_Pressure_kPa (last ?cur)) (Displacement_mm (last ?cur))
      = Inr (ml_risk, ml_prob)"
    by blast
  from manual_forensics_returns [OF assms(1) this] show ?thesis .
qed

lemma manual_forensics_empty: "manual_forensics env ml ct [] timeline_hour s = Inl IndexError"
  by (simp add: manual_forensics_def)

lemma manual_forensics_effect:
  assumes "manual_forensics env ml ct full_data timeline_hour s = Inr (s', v)"
  shows "s' = forensic_alarm_latch ct (is_critical v) s"
proof -
  let ?sel = "filter (\<lambda>r. Time_Hrs r \<le> timeline_hour) full_data"
  let ?cur = "if ?sel = [] then take 1 full_data else ?sel"
  have ne: "full_data \<noteq> []"
    using assms manual_forensics_empty [of env ml ct timeline_hour s] by auto
  show ?thesis
  proof (cases "predict_risk env ml (Pore_Water_Pressure_kPa (last ?cur))
      (Displacement_mm (last ?cur))")
    case (Inl e)
    from manual_forensics_raises [OF this, of ct s] assms show ?thesis by auto
  next
    case (Inr p)
    obtain ml_risk ml_prob where "p = (ml_risk, ml_prob)" by (cases p)
    with Inr manual_forensics_returns [OF ne, of env ml timeline_hour ml_risk ml_prob ct s] assms
    show ?thesis by auto
  qed
qed

lemma forensic_alarm_latch_fire:
  assumes "\<not> alarm_already_logged s"
  shows "alarm_triggered (forensic_alarm_latch ct True s)"
    and "alarm_already_logged (forensic_alarm_latch ct True s)"
    and "command_log (forensic_alarm_latch ct True s) = command_log s @ forensic_alarm_batch ct"
  using assms by (simp_all add: forensic_alarm_latch_def)

lemma forensic_alarm_latch_clear:
  assumes "alarm_already_logged s"
  shows "\<not> alarm_triggered (forensic_alarm_latch ct False s)"
    and "\<not> alarm_already_logged (forensic_alarm_latch ct False s)"
    and "command_log (forensic_alarm_latch ct False s) = command_log s"
  using assms by (simp_all add: forensic_alarm_latch_def)

text \<open>
  C4. On the manual forensics page an evaluation that is not critical while the alarm is
  latched resets \<open>alarm_triggered\<close> and \<open>alarm_already_logged\<close> to false and leaves the
  log as it is. So three successive evaluations that are critical, not critical and
  critical again, started with the alarm not logged, record exactly two batches of four
  command records, those of the first and of the third evaluation. An evaluation over a
  table with at least one row returns when the classifier call returns on its rows.
\<close>

theorem forensic_alarm_refires:
  "(manual_forensics env ml ct fd h s = Inr (s', v) \<and> alarm_already_logged s \<and> \<not> is_critical v
      \<longrightarrow> \<not> alarm_triggered s' \<and> \<not> alarm_already_logged s' \<and> command_log s' = command_log s)
   \<and> (manual_forensics env ml c1 fd1 h1 s0 = Inr (s1, v1)
       \<and> manual_forensics env ml c2 fd2 h2 s1 = Inr (s2, v2)
       \<and> manual_forensics env ml c3 fd3 h3 s2 = Inr (s3, v3)
       \<and> \<not> alarm_already_logged s0 \<and> is_critical v1 \<and> \<not> is_critical v2 \<and> is_critical v3
      \<longrightarrow> alarm_triggered s1 \<and> alarm_already_logged s1
        \<and> \<not> alarm_triggered s2 \<and> \<not> alarm_already_logged s2
        \<and> alarm_triggered s3 \<and> alarm_already_logged s3
        \<and> command_log s3 = command_log s0 @ forensic_alarm_batch c1 @ forensic_alarm_batch c3
        \<and> length (command_log s3) = length (command_log s0) + 2 * 4)
   \<and> (fd \<noteq> [] \<and> risk_call_returns env ml fd \<longrightarrow>
        (\<exists>s' v. manual_forensics env ml ct fd h s = Inr (s', v)))"
proof (intro conjI impI)
  assume a: "manual_forensics env ml ct fd h s = Inr (s', v) \<and> alarm_already_logged s
      \<and> \<not> is_critical v"
  then have "s' = forensic_alarm_latch ct False s"
    using manual_forensics_effect [of env ml ct fd h s s' v] by simp
  with a forensic_alarm_latch_clear [of s ct]
  show "\<not> alarm_triggered s'" "\<not> alarm_already_logged s'" "command_log s' = command_log s"
    by simp_all
next
  assume a: "manual_forensics env ml c1 fd1 h1 s0 = Inr (s1, v1)
       \<and> manual_forensics env ml c2 fd2 h2 s1 = Inr (s2, v2)
       \<and> manual_forensics env ml c3 fd3 h3 s2 = Inr (s3, v3)
       \<and> \<not> alarm_already_logged s0 \<and> is_critical v1 \<and> \<not> is_critical v2 \<and> is_critical v3"
  then have s1: "s1 = forensic_alarm_latch c1 True s0"
    and s2: "s2 = forensic_alarm_latch c2 False s1"
    and s3: "s3 = forensic_alarm_latch c3 True s2"
    using manual_forensics_effect [of env ml c1 fd1 h1 s0 s1 v1]
      manual_forensics_effect [of env ml c2 fd2 h2 s1 s2 v2]
      manual_forensics_effect [of env ml c3 fd3 h3 s2 s3 v3]
    by simp_all
  from a have fresh: "\<not> alarm_already_logged s0" by simp
  note one = forensic_alarm_latch_fire [OF fresh, of c1, folded s1]
  note two = forensic_alarm_latch_clear [OF one(2), of c2, folded s2]
  note three = forensic_alarm_latch_fire [OF two(2), of c3, folded s3]
  show "alarm_triggered s1" "alarm_already_logged s1" by (rule one)+
  show "\<not> alarm_triggered s2" "\<not> alarm_already_logged s2" by (rule two)+
  show "alarm_triggered s3" "alarm_already_logged s3" by (rule three)+
  show log: "command_log s3 = command_log s0 @ forensic_alarm_batch c1 @ forensic_alarm_batch c3"
    using one(3) two(3) three(3) by simp
  show "length (command_log s3) = length (command_log s0) + 2 * 4"
    unfolding log by simp
next
  assume "fd \<noteq> [] \<and> risk_call_returns env ml fd"
  then have "fd \<noteq> []" and "risk_call_returns env ml fd" by simp_all
  from manual_forensics_total [OF this, of ct h s]
  show "\<exists>s' v. manual_forensics env ml ct fd h s = Inr (s', v)" by blast
qed

theorem forensic_alarm_refires_witness:
  "[probe_row 0 200 0, probe_row 1 0 0, probe_row 2 200 0] \<noteq> []
   \<and> risk_call_returns bare_env unloaded_engine
        [probe_row 0 200 0, probe_row 1 0 0, probe_row 2 200 0]
   \<and> \<not> alarm_already_logged initial_session
   \<and> (\<exists>s1 v1 s2 v2 s3 v3.
        manual_forensics bare_env unloaded_engine (tick_clock 0)
          [probe_row 0 200 0, probe_row 1 0 0, probe_row 2 200 0] 0 initial_session = Inr (s1, v1)
        \<and> manual_forensics bare_env unloaded_engine (tick_clock 1)
            [probe_row 0 200 0, probe_row 1 0 0, probe_row 2 200 0] 1 s1 = Inr (s2, v2)
        \<and> manual_forensics bare_env unloaded_engine (tick_clock 2)
            [probe_row 0 200 0, probe_row 1 0 0, probe_row 2 200 0] 2 s2 = Inr (s3, v3)
        \<and> is_critical v1 \<and> \<not> is_critical v2 \<and> is_critical v3
        \<and> alarm_already_logged s1 \<and> \<not> alarm_already_logged s2 \<and> alarm_already_logged s3
        \<and> command_log s3 = forensic_alarm_batch ''12:00:00'' @ forensic_alarm_batch ''12:00:02''
        \<and> length (command_log s3) = 8)"
proof -
  let ?fd = "[probe_row 0 200 0, probe_row 1 0 0, probe_row 2 200 0]"
  have ne: "?fd \<noteq> []" by simp
  have rcr: "risk_call_returns bare_env unloaded_engine ?fd"
    by (rule unloaded_engine_returns)
  have fresh: "\<not> alarm_already_logged initial_session" "command_log initial_session = []"
    by (simp_all add: initial_session_def)
  obtain v1 where r1: "manual_forensics bare_env unloaded_engine (tick_clock 0) ?fd 0 initial_session
      = Inr (forensic_alarm_latch (tick_clock 0) (is_critical v1) initial_session, v1)"
    and c1: "is_critical v1"
    using manual_forensics_total [OF ne rcr, where ct = "tick_clock 0" and timeline_hour = 0
        and s = initial_session]
    by (auto simp: probe_row_def [of 1] probe_row_def [of 2] probe_row_def [of 0, THEN arg_cong [of _ _ Time_Hrs]])
  let ?s1 = "forensic_alarm_latch (tick_clock 0) (is_critical v1) initial_session"
  obtain v2 where r2: "manual_forensics bare_env unloaded_engine (tick_clock 1) ?fd 1 ?s1
      = Inr (forensic_alarm_latch (tick_clock 1) (is_critical v2) ?s1, v2)"
    and c2: "\<not> is_critical v2"
    using manual_forensics_total [OF ne rcr, where ct = "tick_clock 1" and timeline_hour = 1
        and s = ?s1]
    by (auto simp: probe_row_def [of 2] probe_row_def [of 0, THEN arg_cong [of _ _ Time_Hrs]]
        probe_row_def [of 1, THEN arg_cong [of _ _ Time_Hrs]])
  let ?s2 = "forensic_alarm_latch (tick_clock 1) (is_critical v2) ?s1"
  obtain v3 where r3: "manual_forensics bare_env unloaded_engine (tick_clock 2) ?fd 2 ?s2
      = Inr (forensic_alarm_latch (tick_clock 2) (is_critical v3) ?s2, v3)"
    and c3: "is_critical v3"
    using manual_forensics_total [OF ne rcr, where ct = "tick_clock 2" and timeline_hour = 2
        and s = ?s2]
    by (auto simp: probe_row_def [of 0, THEN arg_cong [of _ _ Time_Hrs]]
        probe_row_def [of 1, THEN arg_cong [of _ _ Time_Hrs]]
        probe_row_def [of 2, THEN arg_cong [of _ _ Time_Hrs]])
  let ?s3 = "forensic_alarm_latch (tick_clock 2) (is_critical v3) ?s2"
  from forensic_alarm_refires [of bare_env unloaded_engine "tick_clock 0" ?fd 0 initial_session
      ?s1 v1 "tick_clock 0" ?fd 0 initial_session ?s1 v1 "tick_clock 1" ?fd 1 ?s2 v2
      "tick_clock 2" ?fd 2 ?s3 v3]
    r1 r2 r3 c1 c2 c3 fresh
  have "alarm_already_logged ?s1 \<and> \<not> alarm_already_logged ?s2 \<and> alarm_already_logged ?s3
      \<and> command_log ?s3 = forensic_alarm_batch ''12:00:00'' @ forensic_alarm_batch ''12:00:02''
      \<and> length (command_log ?s3) = 8"
    by (simp add: tick_clock_def)
  with r1 r2 r3 c1 c2 c3 ne rcr fresh show ?thesis
    by blast
qed

end
